theory Spec2Isabelle
  imports Complex_Main "HOL-Library.Sublist" "HOL-Library.Word" "HOL-Library.Log_Nat"
begin

section \<open>Python values used by \<^verbatim>\<open>acquifer/__init__.py\<close>\<close>

text \<open>
  The package decodes metadata from image file names by slicing fixed character ranges
  and casting them with \<^verbatim>\<open>int\<close> and \<^verbatim>\<open>float\<close>. Exceptions are values of the sum type
  \<open>error + 'a\<close>. A file name is a \<open>string\<close>: every character is one code point below
  256, which covers the ASCII names the microscope writes. The built-in functions are
  those of Python 3.
\<close>

datatype error =
  ValueError | KeyError | AttributeError | OverflowError | ZeroDivisionError | UnicodeDecodeError

subsection \<open>Slicing, \<^verbatim>\<open>find\<close> and \<^verbatim>\<open>index\<close>\<close>

text \<open>
  \<^verbatim>\<open>s[a:b]\<close> never raises: a negative bound counts from the end, and both bounds are
  clamped to \<open>0..len(s)\<close>.
\<close>

definition slice_bound :: "nat \<Rightarrow> int \<Rightarrow> nat" where
  "slice_bound n i = (if i < 0 then nat (int n + i) else min n (nat i))"

definition py_slice :: "'a list \<Rightarrow> int \<Rightarrow> int \<Rightarrow> 'a list" where
  "py_slice xs a b =
     (let lo = slice_bound (length xs) a; hi = slice_bound (length xs) b
      in take (hi - lo) (drop lo xs))"

text \<open>
  \<^verbatim>\<open>s.find(sub)\<close>: the lowest index where \<open>sub\<close> starts, or \<open>-1\<close>. \<^verbatim>\<open>s.index(sub)\<close> is
  the same search and raises \<^verbatim>\<open>ValueError\<close> instead of returning \<open>-1\<close>.
\<close>

primrec find_from :: "'a list \<Rightarrow> nat \<Rightarrow> 'a list \<Rightarrow> int" where
  "find_from sub i [] = (if sub = [] then int i else - 1)"
| "find_from sub i (x # xs) =
     (if prefix sub (x # xs) then int i else find_from sub (Suc i) xs)"

definition py_find :: "'a list \<Rightarrow> 'a list \<Rightarrow> int" where
  "py_find s sub = find_from sub 0 s"

definition py_index :: "'a list \<Rightarrow> 'a list \<Rightarrow> error + int" where
  "py_index s sub = (let r = py_find s sub in if r < 0 then Inl ValueError else Inr r)"

definition ascii_uppercase :: string where
  "ascii_uppercase = ''ABCDEFGHIJKLMNOPQRSTUVWXYZ''"

subsection \<open>\<^verbatim>\<open>int(str)\<close>\<close>

text \<open>
  \<^verbatim>\<open>int(s)\<close> in base 10: white space around the number is skipped, one sign is allowed,
  and the digits may be grouped by single underscores, each between two digits. Anything
  else raises \<^verbatim>\<open>ValueError\<close>. The white space of \<^verbatim>\<open>int\<close> and \<^verbatim>\<open>float\<close> below code point 256
  is tab, the line breaks 10 to 13, space, and the code points 133 and 160.
\<close>

definition ord :: "char \<Rightarrow> int" where
  "ord c = of_char c"

definition is_space :: "char \<Rightarrow> bool" where
  "is_space c = (ord c \<in> {9, 10, 11, 12, 13, 32, 133, 160})"

definition is_digit :: "char \<Rightarrow> bool" where
  "is_digit c = (48 \<le> ord c \<and> ord c \<le> 57)"

definition digit_val :: "char \<Rightarrow> int" where
  "digit_val c = ord c - 48"

definition strip :: "string \<Rightarrow> string" where
  "strip s = rev (dropWhile is_space (rev (dropWhile is_space s)))"

text \<open>
  Underscores: one is legal only right after a digit and right before a digit. The
  function returns the text without them, or \<open>None\<close>. \<open>prev\<close> is the character before.
\<close>

fun drop_underscores :: "char \<Rightarrow> string \<Rightarrow> string option" where
  "drop_underscores prev [] = (if prev = CHR ''_'' then None else Some [])"
| "drop_underscores prev (c # cs) =
     (if c = CHR ''_'' then (if is_digit prev then drop_underscores c cs else None)
      else if prev = CHR ''_'' \<and> \<not> is_digit c then None
      else map_option (Cons c) (drop_underscores c cs))"

definition digits_val :: "string \<Rightarrow> int" where
  "digits_val ds = foldl (\<lambda>acc c. 10 * acc + digit_val c) 0 ds"

definition split_sign :: "string \<Rightarrow> bool \<times> string" where
  "split_sign s =
     (case s of
        [] \<Rightarrow> (False, [])
      | c # r \<Rightarrow> if c = CHR ''-'' then (True, r) else if c = CHR ''+'' then (False, r)
                else (False, s))"

definition py_int :: "string \<Rightarrow> error + int" where
  "py_int s =
     (case split_sign (strip s) of (neg, body) \<Rightarrow>
        (case drop_underscores (CHR 0x00) body of
           None \<Rightarrow> Inl ValueError
         | Some ds \<Rightarrow>
             if ds \<noteq> [] \<and> list_all is_digit ds
             then Inr (if neg then - digits_val ds else digits_val ds)
             else Inl ValueError))"

subsection \<open>Python floats: IEEE 754 binary64\<close>

text \<open>
  A Python \<^verbatim>\<open>float\<close> is a binary64 value. \<open>Fin x\<close> is the finite value \<open>x\<close>; the two zeros
  are one value, as they are for Python's \<^verbatim>\<open>==\<close>. \<open>fl\<close> rounds a rational number to the
  nearest binary64 value, ties to even: 53 significant bits, the least exponent
  \<open>-1074\<close> (gradual underflow), and an infinity once the rounded magnitude reaches \<open>2^1024\<close>.
\<close>

datatype pyfloat = Fin rat | PInf | NInf | NaN

definition pow2 :: "int \<Rightarrow> rat" where
  "pow2 e = 2 powi e"

definition round_half_even :: "rat \<Rightarrow> int" where
  "round_half_even x =
     (let f = \<lfloor>x\<rfloor>; d = x - of_int f
      in if d < 1 / 2 then f else if 1 / 2 < d then f + 1 else if even f then f else f + 1)"

text \<open>\<open>ilog2 x\<close> is the exponent \<open>k\<close> with \<open>2^k \<le> x < 2^(k+1)\<close>, for \<open>0 < x\<close>.\<close>

definition ilog2 :: "rat \<Rightarrow> int" where
  "ilog2 x = (case quotient_of x of (p, q) \<Rightarrow>
      (let d = bitlen p - bitlen q in if pow2 d \<le> x then d else d - 1))"

definition fl :: "rat \<Rightarrow> pyfloat" where
  "fl x = (if x = 0 then Fin 0 else
     (let e = max (ilog2 \<bar>x\<bar> - 52) (- 1074);
          y = of_int (round_half_even (x / pow2 e)) * pow2 e
      in if pow2 1024 \<le> \<bar>y\<bar> then (if 0 < x then PInf else NInf) else Fin y))"

text \<open>A \<open>pyfloat\<close> that a Python float can hold: a fixed point of the rounding.\<close>

fun is_double :: "pyfloat \<Rightarrow> bool" where
  "is_double (Fin a) = (fl a = Fin a)"
| "is_double PInf = True"
| "is_double NInf = True"
| "is_double NaN = True"

fun fneg :: "pyfloat \<Rightarrow> pyfloat" where
  "fneg (Fin a) = Fin (- a)"
| "fneg PInf = NInf"
| "fneg NInf = PInf"
| "fneg NaN = NaN"

fun fadd :: "pyfloat \<Rightarrow> pyfloat \<Rightarrow> pyfloat" where
  "fadd (Fin a) (Fin b) = fl (a + b)"
| "fadd NaN y = NaN"
| "fadd x NaN = NaN"
| "fadd PInf NInf = NaN"
| "fadd NInf PInf = NaN"
| "fadd PInf y = PInf"
| "fadd x PInf = PInf"
| "fadd NInf y = NInf"
| "fadd x NInf = NInf"

definition fsub :: "pyfloat \<Rightarrow> pyfloat \<Rightarrow> pyfloat" where
  "fsub x y = fadd x (fneg y)"

fun fsgn :: "pyfloat \<Rightarrow> int" where
  "fsgn (Fin a) = (if a = 0 then 0 else if 0 < a then 1 else - 1)"
| "fsgn PInf = 1"
| "fsgn NInf = - 1"
| "fsgn NaN = 0"

fun fmul :: "pyfloat \<Rightarrow> pyfloat \<Rightarrow> pyfloat" where
  "fmul (Fin a) (Fin b) = fl (a * b)"
| "fmul NaN y = NaN"
| "fmul x NaN = NaN"
| "fmul x y =
     (if fsgn x * fsgn y = 0 then NaN else if 0 < fsgn x * fsgn y then PInf else NInf)"

text \<open>Float division raises \<^verbatim>\<open>ZeroDivisionError\<close> on a zero divisor, whatever the dividend.\<close>

fun fdiv :: "pyfloat \<Rightarrow> pyfloat \<Rightarrow> error + pyfloat" where
  "fdiv x (Fin b) =
     (if b = 0 then Inl ZeroDivisionError
      else Inr (case x of
                  Fin a \<Rightarrow> fl (a / b)
                | NaN \<Rightarrow> NaN
                | PInf \<Rightarrow> if 0 < b then PInf else NInf
                | NInf \<Rightarrow> if 0 < b then NInf else PInf))"
| "fdiv NaN y = Inr NaN"
| "fdiv x NaN = Inr NaN"
| "fdiv (Fin a) y = Inr (Fin 0)"
| "fdiv x y = Inr NaN"

definition bindE :: "error + 'a \<Rightarrow> ('a \<Rightarrow> error + 'b) \<Rightarrow> error + 'b" where
  "bindE r f = (case r of Inl e \<Rightarrow> Inl e | Inr v \<Rightarrow> f v)"

text \<open>
  An \<^verbatim>\<open>int\<close> operand of a float operation is converted first; \<^verbatim>\<open>int / int\<close> is the
  correctly rounded quotient. Both raise \<^verbatim>\<open>OverflowError\<close> past the largest float.
\<close>

definition finite_or_overflow :: "pyfloat \<Rightarrow> error + pyfloat" where
  "finite_or_overflow x = (case x of Fin y \<Rightarrow> Inr (Fin y) | _ \<Rightarrow> Inl OverflowError)"

definition float_of_int :: "int \<Rightarrow> error + pyfloat" where
  "float_of_int n = finite_or_overflow (fl (of_int n))"

definition int_truediv :: "int \<Rightarrow> int \<Rightarrow> error + pyfloat" where
  "int_truediv a b =
     (if b = 0 then Inl ZeroDivisionError else finite_or_overflow (fl (of_int a / of_int b)))"

text \<open>
  \<^verbatim>\<open>10**-n\<close> for a positive \<open>n\<close>: the integer power with a negative exponent is computed
  in floats; the platform's \<^verbatim>\<open>pow\<close> returns the float nearest to \<open>1/10^n\<close> (\<^verbatim>\<open>10**-3\<close> is
  \<^verbatim>\<open>0.001\<close>, \<^verbatim>\<open>10**-4\<close> is \<^verbatim>\<open>0.0001\<close>).
\<close>

definition ten_pow_neg :: "nat \<Rightarrow> pyfloat" where
  "ten_pow_neg n = fl (1 / 10 ^ n)"

text \<open>
  \<^verbatim>\<open>round(x, ndigits)\<close> of Python 3 for a float and \<open>0 \<le> ndigits\<close>: the exact value of \<open>x\<close>
  is rounded to \<open>ndigits\<close> decimals, ties to even, and that decimal number is converted
  back to the nearest float. Infinities and NaN round to themselves, and so does every
  float for more than 323 digits.
\<close>

definition py_round :: "pyfloat \<Rightarrow> nat \<Rightarrow> error + pyfloat" where
  "py_round x ndigits =
     (case x of
        Fin a \<Rightarrow>
          if 323 < ndigits then Inr x
          else finite_or_overflow
                 (fl (of_int (round_half_even (a * 10 ^ ndigits)) / 10 ^ ndigits))
      | _ \<Rightarrow> Inr x)"

subsection \<open>\<^verbatim>\<open>float(str)\<close>\<close>

text \<open>
  \<^verbatim>\<open>float(s)\<close>: white space around is skipped; underscores between digits are dropped; then
  an optional sign and either \<^verbatim>\<open>inf\<close>, \<^verbatim>\<open>infinity\<close> or \<^verbatim>\<open>nan\<close> in any letter case, or a decimal
  number with at least one digit, an optional fraction and an optional exponent. The
  decimal number is rounded to the nearest float; a too large one gives an infinity.
\<close>

definition lower :: "char \<Rightarrow> char" where
  "lower c = (if 65 \<le> ord c \<and> ord c \<le> 90 then char_of (ord c + 32) else c)"

definition parse_exponent :: "string \<Rightarrow> int option" where
  "parse_exponent s =
     (case s of
        [] \<Rightarrow> Some 0
      | c # r \<Rightarrow>
          if c = CHR ''e'' \<or> c = CHR ''E'' then
            (case split_sign r of (neg, ds) \<Rightarrow>
               if ds \<noteq> [] \<and> list_all is_digit ds
               then Some (if neg then - digits_val ds else digits_val ds) else None)
          else None)"

definition parse_decimal :: "string \<Rightarrow> rat option" where
  "parse_decimal s =
     (let ip = takeWhile is_digit s; r1 = dropWhile is_digit s;
          fp = (case r1 of [] \<Rightarrow> [] | c # r \<Rightarrow> if c = CHR ''.'' then takeWhile is_digit r else []);
          r2 = (case r1 of [] \<Rightarrow> [] | c # r \<Rightarrow> if c = CHR ''.'' then dropWhile is_digit r else r1)
      in if ip = [] \<and> fp = [] then None
         else (case parse_exponent r2 of
                 None \<Rightarrow> None
               | Some ex \<Rightarrow>
                   Some (of_int (digits_val (ip @ fp)) * 10 powi (ex - int (length fp)))))"

definition py_float :: "string \<Rightarrow> error + pyfloat" where
  "py_float s =
     (case drop_underscores (CHR 0x00) (strip s) of
        None \<Rightarrow> Inl ValueError
      | Some t \<Rightarrow>
          (case split_sign t of (neg, body) \<Rightarrow>
             if map lower body = ''inf'' \<or> map lower body = ''infinity''
             then Inr (if neg then NInf else PInf)
             else if map lower body = ''nan'' then Inr NaN
             else (case parse_decimal body of
                     None \<Rightarrow> Inl ValueError
                   | Some v \<Rightarrow> Inr (fl (if neg then - v else v)))))"

subsection \<open>Dictionaries\<close>

text \<open>
  A dictionary literal is an association list in source order. \<^verbatim>\<open>k in d\<close> tests the keys,
  \<^verbatim>\<open>d[k]\<close> raises \<^verbatim>\<open>KeyError\<close> on a missing key. No float key is a zero or NaN, so the equality
  of \<open>pyfloat\<close> decides the float keys as \<^verbatim>\<open>==\<close> does.
\<close>

definition dict_contains :: "('k \<times> 'v) list \<Rightarrow> 'k \<Rightarrow> bool" where
  "dict_contains d k = (k \<in> set (map fst d))"

definition dict_get :: "('k \<times> 'v) list \<Rightarrow> 'k \<Rightarrow> error + 'v" where
  "dict_get d k = (case map_of d k of None \<Rightarrow> Inl KeyError | Some v \<Rightarrow> Inr v)"

section \<open>Integer fields of the file name\<close>

definition example_IM03 :: string where
  "example_IM03 =
     ''WE00003---A003--PO01--LO001--CO6--SL010--PX16250--PW0040--IN0020--TM246--X032281--Y010963--Z211825--T1375404533.tif''"

definition example_IM04 :: string where
  "example_IM04 =
     ''-A001--PO01--LO001--CO6--SL001--PX32500--PW0080--IN0020--TM244--X014580--Y011262--Z209501--T1374031802--WE00001.tif''"

subsection \<open>\<^verbatim>\<open>IM03.metadata\<close>\<close>

definition IM03_getWellSubPosition :: "string \<Rightarrow> error + int" where
  "IM03_getWellSubPosition imageName = py_int (py_slice imageName 18 20)"

definition IM03_getWellId :: "string \<Rightarrow> string" where
  "IM03_getWellId imageName = py_slice imageName 10 14"

definition IM03_getWellColumn :: "string \<Rightarrow> error + int" where
  "IM03_getWellColumn imageName = py_int (py_slice imageName 11 14)"

definition IM03_getWellRow :: "string \<Rightarrow> error + int" where
  "IM03_getWellRow imageName =
     (let letter = py_slice imageName 10 11
      in map_sum id (\<lambda>i. i + 1) (py_index ascii_uppercase letter))"

definition IM03_getWellIndex :: "string \<Rightarrow> error + int" where
  "IM03_getWellIndex imageName = py_int (py_slice imageName 2 7)"

definition IM03_getZSlice :: "string \<Rightarrow> error + int" where
  "IM03_getZSlice imageName = py_int (py_slice imageName 36 39)"

definition IM03_getChannelIndex :: "string \<Rightarrow> error + int" where
  "IM03_getChannelIndex imageName = py_int (py_slice imageName 31 32)"

definition IM03_getLoopIteration :: "string \<Rightarrow> error + int" where
  "IM03_getLoopIteration imageName = py_int (py_slice imageName 24 27)"

definition IM03_getTime :: "string \<Rightarrow> error + int" where
  "IM03_getTime imageName = py_int (py_slice imageName (- 14) (- 4))"

definition IM03_getLightPower :: "string \<Rightarrow> error + int" where
  "IM03_getLightPower imageName = py_int (py_slice imageName 52 56)"

definition IM03_getLightExposure :: "string \<Rightarrow> error + int" where
  "IM03_getLightExposure imageName = py_int (py_slice imageName 60 64)"

subsection \<open>\<^verbatim>\<open>IM04.metadata\<close>\<close>

definition IM04_getWellSubPosition :: "string \<Rightarrow> error + int" where
  "IM04_getWellSubPosition imageName = py_int (py_slice imageName 9 11)"

definition IM04_getWellId :: "string \<Rightarrow> string" where
  "IM04_getWellId imageName = py_slice imageName 1 5"

definition IM04_getWellColumn :: "string \<Rightarrow> error + int" where
  "IM04_getWellColumn imageName = py_int (py_slice imageName 2 5)"

definition IM04_getWellRow :: "string \<Rightarrow> error + int" where
  "IM04_getWellRow imageName =
     (let letter = py_slice imageName 1 2
      in map_sum id (\<lambda>i. i + 1) (py_index ascii_uppercase letter))"

definition IM04_getWellIndex :: "string \<Rightarrow> error + int" where
  "IM04_getWellIndex imageName = py_int (py_slice imageName 106 111)"

definition IM04_getZSlice :: "string \<Rightarrow> error + int" where
  "IM04_getZSlice imageName = py_int (py_slice imageName 27 30)"

definition IM04_getChannelIndex :: "string \<Rightarrow> error + int" where
  "IM04_getChannelIndex imageName = py_int (py_slice imageName 22 23)"

definition IM04_getLoopIteration :: "string \<Rightarrow> error + int" where
  "IM04_getLoopIteration imageName = py_int (py_slice imageName 15 18)"

definition IM04_getTime :: "string \<Rightarrow> error + int" where
  "IM04_getTime imageName = py_int (py_slice imageName 92 102)"

definition IM04_getLightPower :: "string \<Rightarrow> error + int" where
  "IM04_getLightPower imageName = py_int (py_slice imageName 43 47)"

definition IM04_getLightExposure :: "string \<Rightarrow> error + int" where
  "IM04_getLightExposure imageName = py_int (py_slice imageName 51 55)"

section \<open>Class \<^verbatim>\<open>IM.metadata\<close>: lookup tables and coordinate conversion\<close>

definition pixelSizeToMag :: "(pyfloat \<times> int) list" where
  "pixelSizeToMag = [(fl 3.25, 2), (fl 1.625, 4), (fl 0.650, 10), (fl 0.325, 20)]"

definition pixelSizeToNA :: "(pyfloat \<times> pyfloat) list" where
  "pixelSizeToNA =
     [(fl 3.25, fl 0.06), (fl 1.625, fl 0.13), (fl 0.650, fl 0.3), (fl 0.325, fl 0.45)]"

definition magToNA :: "(int \<times> pyfloat) list" where
  "magToNA = [(2, fl 0.06), (4, fl 0.13), (10, fl 0.3), (20, fl 0.45), (40, fl 0.6)]"

text \<open>
  \<^verbatim>\<open>convertXY_PixToIM\<close> with the parameter types of its docstring: the pixel coordinates
  and the image dimensions are \<^verbatim>\<open>int\<close>, the pixel size and the stage centre are \<^verbatim>\<open>float\<close>.
  \<^verbatim>\<open>/\<close> is true division (\<^verbatim>\<open>from __future__ import division\<close>). Each operation is done in
  the order Python does it: \<^verbatim>\<open>-Image_Width/2\<close> is \<^verbatim>\<open>(-Image_Width)/2\<close>, and sums and products
  associate to the left.
\<close>

definition convertXY_PixToIM ::
  "int \<Rightarrow> int \<Rightarrow> pyfloat \<Rightarrow> pyfloat \<Rightarrow> pyfloat \<Rightarrow> int \<Rightarrow> int \<Rightarrow> error + pyfloat \<times> pyfloat" where
  "convertXY_PixToIM Xpix Ypix PixelSize_um X0mm Y0mm Image_Width Image_Height =
     bindE (int_truediv (- Image_Width) 2) (\<lambda>w2.
     bindE (float_of_int Xpix) (\<lambda>xp.
     bindE (Inr (fadd X0mm (fmul (fmul (fadd w2 xp) PixelSize_um) (ten_pow_neg 3)))) (\<lambda>Xout.
     bindE (int_truediv (- Image_Height) 2) (\<lambda>h2.
     bindE (float_of_int Image_Height) (\<lambda>h.
     bindE (float_of_int Ypix) (\<lambda>yp.
     bindE (Inr (fadd Y0mm (fmul (fmul (fsub (fadd h2 h) yp) PixelSize_um) (ten_pow_neg 3))))
       (\<lambda>Yout.
     bindE (py_round Xout 3) (\<lambda>Xr.
     bindE (py_round Yout 3) (\<lambda>Yr. Inr (Xr, Yr))))))))))"

text \<open>The call with the default image dimensions \<^verbatim>\<open>Image_Width=2048, Image_Height=2048\<close>.\<close>

definition convertXY_PixToIM_default ::
  "int \<Rightarrow> int \<Rightarrow> pyfloat \<Rightarrow> pyfloat \<Rightarrow> pyfloat \<Rightarrow> error + pyfloat \<times> pyfloat" where
  "convertXY_PixToIM_default Xpix Ypix PixelSize_um X0mm Y0mm =
     convertXY_PixToIM Xpix Ypix PixelSize_um X0mm Y0mm 2048 2048"

text \<open>
  The conversion as the specification words it, in the same arithmetic:
  \<^verbatim>\<open>Xmm = stageCenterXmm + (pixelX - imageWidthPx/2) * pixelSizeUm * 1e-3\<close> and
  \<^verbatim>\<open>Ymm = stageCenterYmm + (imageHeightPx - pixelY - imageHeightPx/2) * pixelSizeUm * 1e-3\<close>,
  each rounded to 3 decimals. \<^verbatim>\<open>imageHeightPx - pixelY\<close> is a difference of integers.
\<close>

definition pixelToStageCoordinate ::
  "int \<Rightarrow> int \<Rightarrow> pyfloat \<Rightarrow> pyfloat \<Rightarrow> pyfloat \<Rightarrow> int \<Rightarrow> int \<Rightarrow> error + pyfloat \<times> pyfloat" where
  "pixelToStageCoordinate pixelX pixelY pixelSizeUm stageCenterXmm stageCenterYmm
       imageWidthPx imageHeightPx =
     bindE (int_truediv imageWidthPx 2) (\<lambda>w2.
     bindE (float_of_int pixelX) (\<lambda>xp.
     bindE (Inr (fadd stageCenterXmm (fmul (fmul (fsub xp w2) pixelSizeUm) (fl 0.001))))
       (\<lambda>Xmm.
     bindE (float_of_int (imageHeightPx - pixelY)) (\<lambda>hy.
     bindE (int_truediv imageHeightPx 2) (\<lambda>h2.
     bindE (Inr (fadd stageCenterYmm (fmul (fmul (fsub hy h2) pixelSizeUm) (fl 0.001))))
       (\<lambda>Ymm.
     bindE (py_round Xmm 3) (\<lambda>Xr.
     bindE (py_round Ymm 3) (\<lambda>Yr. Inr (Xr, Yr)))))))))"

text \<open>
  "Rounded to 3 decimals", as the specification says of a stage coordinate: the multiple
  of \<open>1/1000\<close> nearest to the exact value of the float, ties to the even multiple, as the
  float nearest to it. An infinity or NaN has no decimals and stays as it is.
\<close>

definition round_3_decimals :: "pyfloat \<Rightarrow> pyfloat" where
  "round_3_decimals x =
     (case x of
        Fin a \<Rightarrow> fl (of_int (round_half_even (a * 1000)) / 1000)
      | _ \<Rightarrow> x)"

section \<open>Float fields and objective data of the file name\<close>

text \<open>
  The outer classes: \<^verbatim>\<open>IM03\<close> and \<^verbatim>\<open>IM04\<close> derive from \<^verbatim>\<open>IM\<close>. The body of each binds the
  two nested classes and nothing else; the decoding functions are attributes of the
  nested class \<^verbatim>\<open>metadata\<close>. An attribute is looked up along the method resolution order
  and raises \<^verbatim>\<open>AttributeError\<close> when no class there binds the name.
\<close>

datatype pyclass = IM | IM03 | IM04

fun class_body :: "pyclass \<Rightarrow> string list" where
  "class_body IM = [''metadata'', ''TCPIP'']"
| "class_body IM03 = [''metadata'', ''TCPIP'']"
| "class_body IM04 = [''metadata'', ''TCPIP'']"

fun mro :: "pyclass \<Rightarrow> pyclass list" where
  "mro IM = [IM]"
| "mro IM03 = [IM03, IM]"
| "mro IM04 = [IM04, IM]"

definition class_getattr :: "pyclass \<Rightarrow> string \<Rightarrow> error + pyclass" where
  "class_getattr c name =
     (case filter (\<lambda>k. name \<in> set (class_body k)) (mro c) of
        [] \<Rightarrow> Inl AttributeError
      | k # _ \<Rightarrow> Inr k)"

subsection \<open>\<^verbatim>\<open>IM03.metadata\<close>\<close>

definition IM03_getXYPosition_mm :: "string \<Rightarrow> error + pyfloat \<times> pyfloat" where
  "IM03_getXYPosition_mm imageName =
     bindE (bindE (py_int (py_slice imageName 74 80)) (\<lambda>n. int_truediv n 1000)) (\<lambda>X0mm.
     bindE (bindE (py_int (py_slice imageName 83 89)) (\<lambda>n. int_truediv n 1000)) (\<lambda>Y0mm.
     Inr (X0mm, Y0mm)))"

definition IM03_getZPosition_um :: "string \<Rightarrow> error + pyfloat" where
  "IM03_getZPosition_um imageName =
     bindE (py_float (py_slice imageName 92 98)) (\<lambda>z.
     bindE (float_of_int 10) (\<lambda>t. fdiv z t))"

definition IM03_getPixelSize_um :: "string \<Rightarrow> error + pyfloat" where
  "IM03_getPixelSize_um imageName =
     bindE (py_float (py_slice imageName 43 48)) (\<lambda>p. Inr (fmul p (ten_pow_neg 4)))"

text \<open>
  \<^verbatim>\<open>getObjectiveMagnification\<close> of \<^verbatim>\<open>IM03\<close> reads \<^verbatim>\<open>IM03.getPixelSize_um\<close>, an attribute of the
  outer class, where \<^verbatim>\<open>getObjectiveNA\<close> reads \<^verbatim>\<open>IM03.metadata.getPixelSize_um\<close>.
\<close>

definition IM03_getObjectiveMagnification :: "string \<Rightarrow> error + int" where
  "IM03_getObjectiveMagnification imageName =
     bindE (class_getattr IM03 ''getPixelSize_um'') (\<lambda>owner.
     bindE (IM03_getPixelSize_um imageName) (\<lambda>pixSize.
     if dict_contains pixelSizeToMag pixSize then dict_get pixelSizeToMag pixSize
     else Inl KeyError))"

definition IM03_getObjectiveNA :: "string \<Rightarrow> error + pyfloat" where
  "IM03_getObjectiveNA imageName =
     bindE (IM03_getPixelSize_um imageName) (\<lambda>pixSize.
     if dict_contains pixelSizeToNA pixSize then dict_get pixelSizeToNA pixSize
     else Inl KeyError)"

definition IM03_getTemperature :: "string \<Rightarrow> error + pyfloat" where
  "IM03_getTemperature imageName =
     bindE (py_float (py_slice imageName 68 71)) (\<lambda>z.
     bindE (float_of_int 10) (\<lambda>t. fdiv z t))"

subsection \<open>\<^verbatim>\<open>IM04.metadata\<close>\<close>

definition IM04_getXYPosition_mm :: "string \<Rightarrow> error + pyfloat \<times> pyfloat" where
  "IM04_getXYPosition_mm imageName =
     bindE (bindE (py_int (py_slice imageName 65 71)) (\<lambda>n. int_truediv n 1000)) (\<lambda>X0mm.
     bindE (bindE (py_int (py_slice imageName 74 80)) (\<lambda>n. int_truediv n 1000)) (\<lambda>Y0mm.
     Inr (X0mm, Y0mm)))"

definition IM04_getZPosition_um :: "string \<Rightarrow> error + pyfloat" where
  "IM04_getZPosition_um imageName =
     bindE (py_float (py_slice imageName 83 89)) (\<lambda>z.
     bindE (float_of_int 10) (\<lambda>t. fdiv z t))"

definition IM04_getPixelSize_um :: "string \<Rightarrow> error + pyfloat" where
  "IM04_getPixelSize_um imageName =
     bindE (py_float (py_slice imageName 34 39)) (\<lambda>p. Inr (fmul p (ten_pow_neg 4)))"

definition IM04_getObjectiveMagnification :: "string \<Rightarrow> error + int" where
  "IM04_getObjectiveMagnification imageName =
     bindE (IM04_getPixelSize_um imageName) (\<lambda>pixSize.
     if dict_contains pixelSizeToMag pixSize then dict_get pixelSizeToMag pixSize
     else Inl KeyError)"

definition IM04_getObjectiveNA :: "string \<Rightarrow> error + pyfloat" where
  "IM04_getObjectiveNA imageName =
     bindE (IM04_getPixelSize_um imageName) (\<lambda>pixSize.
     if dict_contains pixelSizeToNA pixSize then dict_get pixelSizeToNA pixSize
     else Inl KeyError)"

definition IM04_getTemperature :: "string \<Rightarrow> error + pyfloat" where
  "IM04_getTemperature imageName =
     bindE (py_float (py_slice imageName 59 62)) (\<lambda>z.
     bindE (float_of_int 10) (\<lambda>t. fdiv z t))"

section \<open>Class \<^verbatim>\<open>IM.TCPIP\<close>: the status client\<close>

text \<open>
  The client object holds the address and one socket. The socket is the list of the
  messages sent so far and the list of the responses the microscope delivers, one for
  each read. Bytes are 8-bit words; the text a response decodes to is a list of Unicode
  code points.
\<close>

type_synonym byte = "8 word"

record TCPIP =
  TCP_IP :: string
  TCP_PORT :: int
  sent :: "byte list list"
  incoming :: "byte list list"

definition send :: "TCPIP \<Rightarrow> byte list \<Rightarrow> TCPIP" where
  "send self msg = self\<lparr>sent := sent self @ [msg]\<rparr>"

text \<open>
  Modelled from the spec: \<^verbatim>\<open>__getFeedback__\<close>, which \<^verbatim>\<open>getVersion\<close> and \<^verbatim>\<open>getStatus\<close> call and
  \<^verbatim>\<open>__init__.py\<close> does not define. It reads one response; a single receive returns the
  complete message. There is no timeout: with no response the call never returns, which
  is the value \<open>None\<close>.
\<close>

definition getFeedback :: "TCPIP \<Rightarrow> (byte list \<times> TCPIP) option" where
  "getFeedback self =
     (case incoming self of
        [] \<Rightarrow> None
      | out # rest \<Rightarrow> Some (out, self\<lparr>incoming := rest\<rparr>))"

text \<open>
  \<^verbatim>\<open>bytes.decode("UTF-8")\<close> with the default strict error handling: the shortest encoding of
  a code point up to \<open>0x10FFFF\<close> that is no surrogate; anything else raises
  \<^verbatim>\<open>UnicodeDecodeError\<close>.
\<close>

definition is_cont :: "byte \<Rightarrow> bool" where
  "is_cont b = (0x80 \<le> b \<and> b \<le> 0xBF)"

definition cont_bits :: "byte \<Rightarrow> int" where
  "cont_bits b = uint b - 128"

definition cons_ok :: "int \<Rightarrow> error + int list \<Rightarrow> error + int list" where
  "cons_ok cp r = (case r of Inl e \<Rightarrow> Inl e | Inr cps \<Rightarrow> Inr (cp # cps))"

fun utf8_decode :: "byte list \<Rightarrow> error + int list" where
  "utf8_decode [] = Inr []"
| "utf8_decode (b # bs) =
     (if b \<le> 0x7F then cons_ok (uint b) (utf8_decode bs)
      else if 0xC2 \<le> b \<and> b \<le> 0xDF then
        (case bs of
           c1 # r \<Rightarrow>
             if is_cont c1
             then cons_ok ((uint b - 192) * 64 + cont_bits c1) (utf8_decode r)
             else Inl UnicodeDecodeError
         | _ \<Rightarrow> Inl UnicodeDecodeError)
      else if 0xE0 \<le> b \<and> b \<le> 0xEF then
        (case bs of
           c1 # c2 # r \<Rightarrow>
             if is_cont c1 \<and> is_cont c2
                \<and> (if b = 0xE0 then 0xA0 \<le> c1 else True)
                \<and> (if b = 0xED then c1 \<le> 0x9F else True)
             then cons_ok ((uint b - 224) * 4096 + cont_bits c1 * 64 + cont_bits c2)
                    (utf8_decode r)
             else Inl UnicodeDecodeError
         | _ \<Rightarrow> Inl UnicodeDecodeError)
      else if 0xF0 \<le> b \<and> b \<le> 0xF4 then
        (case bs of
           c1 # c2 # c3 # r \<Rightarrow>
             if is_cont c1 \<and> is_cont c2 \<and> is_cont c3
                \<and> (if b = 0xF0 then 0x90 \<le> c1 else True)
                \<and> (if b = 0xF4 then c1 \<le> 0x8F else True)
             then cons_ok ((uint b - 240) * 262144 + cont_bits c1 * 4096 + cont_bits c2 * 64
                           + cont_bits c3) (utf8_decode r)
             else Inl UnicodeDecodeError
         | _ \<Rightarrow> Inl UnicodeDecodeError)
      else Inl UnicodeDecodeError)"

text \<open>The part of a response that both queries return: \<^verbatim>\<open>out[offset+1:-1]\<close>, decoded.\<close>

definition extract_text :: "byte list \<Rightarrow> error + int list" where
  "extract_text out = (let offset = py_find out [0x1F] in utf8_decode (py_slice out (offset + 1) (- 1)))"

definition ascii :: "string \<Rightarrow> byte list" where
  "ascii s = map of_char s"

definition getVersion :: "TCPIP \<Rightarrow> ((error + int list) \<times> TCPIP) option" where
  "getVersion self =
     (let s1 = send self [0x00, 0x00, 0x00, 0x18];
          s2 = send s1 ([0x02] @ ascii ''Get'' @ [0x1F] @ ascii ''IMVersion'' @ [0x1F]
                        @ ascii ''10982031'' @ [0x03])
      in case getFeedback s2 of
           None \<Rightarrow> None
         | Some (out, s3) \<Rightarrow> Some (extract_text out, s3))"

definition getStatus :: "TCPIP \<Rightarrow> ((error + int list) \<times> TCPIP) option" where
  "getStatus self =
     (let s1 = send self [0x00, 0x00, 0x00, 0x17];
          s2 = send s1 ([0x02] @ ascii ''Get'' @ [0x1F] @ ascii ''IMStatus'' @ [0x1F]
                        @ ascii ''19487256'' @ [0x03])
      in case getFeedback s2 of
           None \<Rightarrow> None
         | Some (out, s3) \<Rightarrow> Some (extract_text out, s3))"

text \<open>
  \<^verbatim>\<open>str.encode("UTF-8")\<close>, the inverse of the decoding: a text is a list of Unicode scalar
  values (code points up to \<open>0x10FFFF\<close> that are no surrogates), each encoded in one to
  four bytes.
\<close>

definition valid_code_point :: "int \<Rightarrow> bool" where
  "valid_code_point cp =
     (0 \<le> cp \<and> cp \<le> 0x10FFFF \<and> \<not> (0xD800 \<le> cp \<and> cp \<le> 0xDFFF))"

definition utf8_encode_code_point :: "int \<Rightarrow> byte list" where
  "utf8_encode_code_point cp =
     (if cp < 0x80 then [of_int cp]
      else if cp < 0x800 then [of_int (192 + cp div 64), of_int (128 + cp mod 64)]
      else if cp < 0x10000 then
        [of_int (224 + cp div 4096), of_int (128 + cp div 64 mod 64), of_int (128 + cp mod 64)]
      else
        [of_int (240 + cp div 262144), of_int (128 + cp div 4096 mod 64),
         of_int (128 + cp div 64 mod 64), of_int (128 + cp mod 64)])"

definition utf8_encode :: "int list \<Rightarrow> byte list" where
  "utf8_encode cps = concat (map utf8_encode_code_point cps)"

definition example_client :: TCPIP where
  "example_client =
     \<lparr>TCP_IP = ''127.0.0.1'', TCP_PORT = 6261, sent = [],
      incoming = [[0x02] @ ascii ''IMVersion'' @ [0x1F] @ ascii ''4.10'' @ [0x03]]\<rparr>"

section \<open>Facts about slicing and searching\<close>

lemma py_slice_nonneg:
  "0 \<le> a \<Longrightarrow> 0 \<le> b \<Longrightarrow> py_slice xs a b = take (nat b - nat a) (drop (nat a) xs)"
  by (cases "nat b \<le> length xs"; cases "nat a \<le> length xs")
    (auto simp: py_slice_def slice_bound_def Let_def min_def)

lemma py_slice_one:
  "py_slice (pre @ c # post) (int (length pre)) (int (length pre) + 1) = [c]"
  by (simp add: py_slice_def slice_bound_def nat_add_distrib)

lemma py_slice_all_but_last: "py_slice xs 0 (- 1) = butlast xs"
  by (simp add: py_slice_def slice_bound_def butlast_conv_take nat_diff_distrib')

lemma py_slice_between:
  "py_slice (pre @ x # mid @ [t]) (int (length pre) + 1) (- 1) = mid"
  by (simp add: py_slice_def slice_bound_def nat_add_distrib)

lemma py_slice_after_last:
  "py_slice (pre @ [x]) (int (length pre) + 1) (- 1) = []"
  by (simp add: py_slice_def slice_bound_def nat_add_distrib)

lemma find_from_absent: "x \<notin> set xs \<Longrightarrow> find_from [x] i xs = - 1"
  by (induction xs arbitrary: i) auto

lemma find_from_first:
  "x \<notin> set pre \<Longrightarrow> find_from [x] i (pre @ x # post) = int (i + length pre)"
  by (induction pre arbitrary: i) auto

lemma py_find_absent: "x \<notin> set xs \<Longrightarrow> py_find xs [x] = - 1"
  by (simp add: py_find_def find_from_absent)

lemma py_find_first: "x \<notin> set pre \<Longrightarrow> py_find (pre @ x # post) [x] = int (length pre)"
  by (simp add: py_find_def find_from_first)

lemma ord_inj: "ord c = ord d \<Longrightarrow> c = d"
  by (simp add: ord_def)

lemma ord_uppercase: "map ord ascii_uppercase = [65..90]"
  by (simp add: ascii_uppercase_def ord_def upto.simps)

lemma upper_in_alphabet:
  assumes "65 \<le> ord c" "ord c \<le> 90"
  shows "c \<in> set ascii_uppercase"
proof -
  have "ord c \<in> set [65..90]"
    unfolding set_upto using assms by simp
  then have "ord c \<in> ord ` set ascii_uppercase"
    by (simp only: ord_uppercase[symmetric] set_map)
  then show ?thesis by (auto dest: ord_inj)
qed

lemma index_uppercase:
  assumes "65 \<le> ord c" "ord c \<le> 90"
  shows "py_index ascii_uppercase [c] = Inr (ord c - 65)"
  using upper_in_alphabet[OF assms]
  by (auto simp: ascii_uppercase_def py_index_def py_find_def ord_def)

section \<open>Facts about the rounding to binary64\<close>

lemma pow2_pos [simp]: "0 < pow2 e"
  by (simp add: pow2_def)

lemma pow2_nonzero [simp]: "pow2 e \<noteq> 0"
  by (simp add: pow2_def)

lemma pow2_abs [simp]: "\<bar>pow2 e\<bar> = pow2 e"
  by (simp add: abs_of_pos)

lemma pow2_add: "pow2 (a + b) = pow2 a * pow2 b"
  by (simp add: pow2_def power_int_add)

lemma pow2_mono: "a \<le> b \<Longrightarrow> pow2 a \<le> pow2 b"
  by (simp add: pow2_def power_int_increasing)

lemma pow2_less_iff: "pow2 a < pow2 b \<longleftrightarrow> a < b"
proof
  assume "pow2 a < pow2 b"
  then show "a < b"
    using pow2_mono[of b a] by (cases "a < b") auto
next
  assume "a < b"
  then show "pow2 a < pow2 b"
    by (simp add: pow2_def power_int_strict_increasing)
qed

lemma pow2_nat: "0 \<le> e \<Longrightarrow> pow2 e = of_int (2 ^ nat e)"
  by (simp add: pow2_def power_int_def)

lemma pow2_neg: "e \<le> 0 \<Longrightarrow> pow2 e = 1 / of_int (2 ^ nat (- e))"
  by (cases "e = 0") (simp_all add: pow2_def power_int_def field_simps)

lemma ilog2_bounds:
  assumes "0 < x"
  shows "pow2 (ilog2 x) \<le> x" and "x < pow2 (ilog2 x + 1)"
proof -
  obtain p q where pq: "quotient_of x = (p, q)" by (cases "quotient_of x")
  then have x: "x = of_int p / of_int q" and q: "0 < q"
    by (simp_all add: quotient_of_div quotient_of_denom_pos)
  with assms have p: "0 < p"
    by (simp add: zero_less_divide_iff)
  define d where "d = bitlen p - bitlen q"
  have bp: "1 \<le> bitlen p" and bq: "1 \<le> bitlen q"
    using p q by (simp_all add: bitlen_alt_def)
  have bnd: "pow2 (bitlen n - 1) \<le> of_int n \<and> of_int n < pow2 (bitlen n)" if "0 < n" for n
  proof -
    from that have b: "1 \<le> bitlen n" by (simp add: bitlen_alt_def)
    have "rat_of_int (2 ^ nat (bitlen n - 1)) \<le> of_int n"
      using bitlen_bounds[OF that] by (simp only: of_int_le_iff)
    moreover have "rat_of_int n < of_int (2 ^ nat (bitlen n))"
      using bitlen_bounds[OF that] by (simp only: of_int_less_iff)
    ultimately show ?thesis
      using b by (simp only: pow2_nat[of "bitlen n - 1"] pow2_nat[of "bitlen n"])
  qed
  have p1: "pow2 (bitlen p - 1) \<le> of_int p" and p2: "of_int p < pow2 (bitlen p)"
    using bnd[OF p] by simp_all
  have q1: "pow2 (bitlen q - 1) \<le> of_int q" and q2: "of_int q < pow2 (bitlen q)"
    using bnd[OF q] by simp_all
  have qpos: "(0::rat) < of_int q" using q by simp
  have up: "x < pow2 (d + 1)"
  proof -
    have "of_int p < pow2 (bitlen p)" by (rule p2)
    also have "\<dots> = pow2 (d + 1) * pow2 (bitlen q - 1)"
      by (simp add: d_def flip: pow2_add)
    also have "\<dots> \<le> pow2 (d + 1) * of_int q"
      using q1 by simp
    finally show ?thesis using qpos by (simp add: x pos_divide_less_eq)
  qed
  have lo: "pow2 (d - 1) < x"
  proof -
    have "pow2 (d - 1) * of_int q < pow2 (d - 1) * pow2 (bitlen q)"
      using q2 by simp
    also have "\<dots> = pow2 (bitlen p - 1)"
      by (simp add: d_def flip: pow2_add)
    also have "\<dots> \<le> of_int p" by (rule p1)
    finally show ?thesis using qpos by (simp add: x pos_less_divide_eq)
  qed
  have il: "ilog2 x = (if pow2 d \<le> x then d else d - 1)"
    by (simp add: ilog2_def pq d_def Let_def)
  show "pow2 (ilog2 x) \<le> x" using lo by (simp add: il)
  show "x < pow2 (ilog2 x + 1)" using up by (auto simp: il not_le)
qed

lemma ilog2_unique:
  assumes "0 < x" "pow2 k \<le> x" "x < pow2 (k + 1)"
  shows "ilog2 x = k"
proof -
  from ilog2_bounds[OF assms(1)] assms
  have "pow2 (ilog2 x) < pow2 (k + 1)" and "pow2 k < pow2 (ilog2 x + 1)"
    by auto
  then show ?thesis by (simp add: pow2_less_iff)
qed

lemma round_half_even_of_int [simp]: "round_half_even (of_int n) = n"
  by (simp add: round_half_even_def)

lemma round_half_even_near:
  assumes "\<bar>x - of_int m\<bar> < 1 / 2"
  shows "round_half_even x = m"
proof -
  have "\<lfloor>x\<rfloor> = m \<or> \<lfloor>x\<rfloor> = m - 1"
    using assms by (auto simp: floor_eq_iff abs_less_iff)
  then show ?thesis
    using assms by (auto simp: round_half_even_def Let_def abs_less_iff)
qed

lemma round_half_even_tie:
  assumes "\<bar>x - of_int m\<bar> = 1 / 2" and "even m"
  shows "round_half_even x = m"
proof (cases "of_int m \<le> x")
  case True
  with assms(1) have x: "x = of_int m + 1 / 2" by (simp add: abs_if split: if_splits)
  then have "\<lfloor>x\<rfloor> = m" by (simp add: floor_eq_iff)
  with x assms(2) show ?thesis by (simp add: round_half_even_def)
next
  case False
  with assms(1) have x: "x = of_int (m - 1) + 1 / 2" by (simp add: abs_if split: if_splits)
  then have "\<lfloor>x\<rfloor> = m - 1" by (simp add: floor_eq_iff)
  with x assms(2) show ?thesis by (simp add: round_half_even_def)
qed

lemma round_half_even_eqI:
  assumes "\<bar>x - of_int m\<bar> < 1 / 2 \<or> \<bar>x - of_int m\<bar> = 1 / 2 \<and> even m"
  shows "round_half_even x = m"
  using assms round_half_even_near round_half_even_tie by blast

lemma round_half_even_minus: "round_half_even (- x) = - round_half_even x"
proof (cases "x = of_int \<lfloor>x\<rfloor>")
  case True
  then obtain n where "x = of_int n" ..
  then show ?thesis
    by (simp flip: of_int_minus)
next
  case False
  then have "\<lceil>x\<rceil> = \<lfloor>x\<rfloor> + 1"
    by (simp add: ceiling_altdef)
  then have fl: "\<lfloor>- x\<rfloor> = - \<lfloor>x\<rfloor> - 1"
    by (simp add: ceiling_def)
  have d: "0 < x - of_int \<lfloor>x\<rfloor>" "x - of_int \<lfloor>x\<rfloor> < 1"
    using False by linarith+
  show ?thesis
    using d by (auto simp: round_half_even_def Let_def fl)
qed

lemma fl_eqI:
  assumes x0: "x \<noteq> 0"
    and k: "pow2 k \<le> \<bar>x\<bar>" "\<bar>x\<bar> < pow2 (k + 1)"
    and e: "e = max (k - 52) (- 1074)"
    and m: "\<bar>x / pow2 e - of_int m\<bar> < 1 / 2
            \<or> \<bar>x / pow2 e - of_int m\<bar> = 1 / 2 \<and> even m"
    and y: "y = of_int m * pow2 e"
    and fin: "\<bar>y\<bar> < pow2 1024"
  shows "fl x = Fin y"
proof -
  have "ilog2 \<bar>x\<bar> = k"
    using x0 k by (intro ilog2_unique) auto
  moreover have "round_half_even (x / pow2 e) = m"
    using m by (rule round_half_even_eqI)
  ultimately show ?thesis
    using x0 fin by (simp add: fl_def Let_def e y not_le)
qed

lemma round_half_even_bound:
  assumes "\<bar>x\<bar> \<le> of_int N"
  shows "\<bar>round_half_even x\<bar> \<le> N"
proof -
  have "\<lfloor>x\<rfloor> \<le> N" "- N \<le> \<lfloor>x\<rfloor>"
    using assms by (auto simp: floor_le_iff le_floor_iff abs_le_iff)
  moreover have "x - of_int \<lfloor>x\<rfloor> < 1 / 2 \<or> \<lfloor>x\<rfloor> < N"
  proof (cases "\<lfloor>x\<rfloor> = N")
    case True
    then have "x - of_int \<lfloor>x\<rfloor> = 0"
      using assms by (simp add: abs_le_iff) linarith
    then show ?thesis by simp
  next
    case False
    with \<open>\<lfloor>x\<rfloor> \<le> N\<close> show ?thesis by simp
  qed
  ultimately show ?thesis
    by (auto simp: round_half_even_def Let_def abs_le_iff)
qed

lemma fl_exact:
  assumes n: "\<bar>n\<bar> \<le> 2 ^ 53" and j: "- 1074 \<le> j"
    and fin: "\<bar>of_int n * pow2 j\<bar> < pow2 1024"
  shows "fl (of_int n * pow2 j) = Fin (of_int n * pow2 j)"
proof (cases "n = 0")
  case True
  then show ?thesis by (simp add: fl_def)
next
  case False
  define x where "x = rat_of_int n * pow2 j"
  have x0: "x \<noteq> 0" and ax: "0 < \<bar>x\<bar>"
    using False by (simp_all add: x_def pow2_def)
  define k where "k = ilog2 \<bar>x\<bar>"
  define e where "e = max (k - 52) (- 1074)"
  have xle: "\<bar>x\<bar> \<le> pow2 (53 + j)"
  proof -
    have "\<bar>rat_of_int n\<bar> \<le> of_int (2 ^ 53)"
      using n by (simp only: of_int_le_iff flip: of_int_abs)
    then have "\<bar>rat_of_int n\<bar> \<le> pow2 53"
      by (simp add: pow2_def)
    then have "\<bar>rat_of_int n\<bar> * pow2 j \<le> pow2 53 * pow2 j"
      by (simp add: mult_right_mono)
    then show ?thesis
      by (simp add: x_def abs_mult pow2_add)
  qed
  have "pow2 k \<le> \<bar>x\<bar>"
    unfolding k_def using ax by (rule ilog2_bounds)
  with xle have "pow2 k \<le> pow2 (53 + j)" by simp
  then have k53: "k \<le> 53 + j"
    using pow2_less_iff[of "53 + j" k] by (simp add: not_less[symmetric])
  have ej: "- 1074 \<le> e" by (simp add: e_def)
  have "\<exists>i. x / pow2 e = of_int i"
  proof (cases "k \<le> 52 + j")
    case True
    then have "e \<le> j" using j by (simp add: e_def)
    then have "pow2 (j - e) = of_int (2 ^ nat (j - e))"
      by (simp add: pow2_nat)
    moreover have "x / pow2 e = of_int n * pow2 (j - e)"
      by (simp add: x_def pow2_def power_int_diff)
    ultimately have "x / pow2 e = of_int (n * 2 ^ nat (j - e))"
      by simp
    then show ?thesis ..
  next
    case False
    with k53 have keq: "k = 53 + j" by simp
    then have e1: "e = j + 1" using j by (simp add: e_def)
    have "pow2 (53 + j) \<le> \<bar>x\<bar>"
      using \<open>pow2 k \<le> \<bar>x\<bar>\<close> keq by simp
    with xle have "\<bar>x\<bar> = pow2 53 * pow2 j"
      by (simp add: pow2_add)
    then have "\<bar>rat_of_int n\<bar> = pow2 53"
      by (simp add: x_def abs_mult)
    then have "\<bar>rat_of_int n\<bar> = of_int (2 ^ 53)"
      by (simp add: pow2_def)
    then have "\<bar>n\<bar> = 2 ^ 53"
      by (simp only: of_int_eq_iff flip: of_int_abs)
    then have "even \<bar>n\<bar>" by simp
    then have "even n" by simp
    then have "n = 2 * (n div 2)" by simp
    then have "rat_of_int n = 2 * of_int (n div 2)"
      by (metis of_int_mult of_int_numeral)
    moreover have "pow2 (j + 1) = pow2 j * 2"
      by (simp add: pow2_def power_int_add)
    then have "x / pow2 e = of_int n / 2"
      by (simp add: x_def e1)
    ultimately have "x / pow2 e = of_int (n div 2)"
      by simp
    then show ?thesis ..
  qed
  then obtain i where i: "x / pow2 e = of_int i" ..
  then have xi: "of_int i * pow2 e = x"
    by (simp add: field_simps pow2_def)
  show ?thesis
    using x0 fin unfolding x_def[symmetric]
    by (simp add: fl_def Let_def k_def[symmetric] e_def[symmetric] i xi not_le)
qed

lemma fl_of_int:
  assumes "\<bar>n\<bar> \<le> 2 ^ 53"
  shows "fl (of_int n) = Fin (of_int n)"
proof -
  have "\<bar>rat_of_int n\<bar> \<le> of_int (2 ^ 53)"
    using assms by (simp only: of_int_le_iff flip: of_int_abs)
  then have "\<bar>rat_of_int n * pow2 0\<bar> < pow2 1024"
    by (simp add: pow2_def)
  from fl_exact[OF assms _ this] show ?thesis
    by (simp add: pow2_def)
qed

lemma fl_half_int:
  assumes "\<bar>n\<bar> \<le> 2 ^ 53"
  shows "fl (of_int n / 2) = Fin (of_int n / 2)"
proof -
  have "\<bar>rat_of_int n\<bar> \<le> of_int (2 ^ 53)"
    using assms by (simp only: of_int_le_iff flip: of_int_abs)
  then have "\<bar>rat_of_int n * pow2 (- 1)\<bar> < pow2 1024"
    by (simp add: pow2_def abs_mult)
  from fl_exact[OF assms _ this] show ?thesis
    by (simp add: pow2_def)
qed

lemma fl_minus: "fl (- x) = fneg (fl x)"
  by (simp add: fl_def Let_def round_half_even_minus)

lemma fl_idem:
  assumes "fl x = Fin a"
  shows "fl a = Fin a"
proof (cases "x = 0")
  case True
  with assms show ?thesis by (auto simp: fl_def)
next
  case False
  define k where "k = ilog2 \<bar>x\<bar>"
  define e where "e = max (k - 52) (- 1074)"
  define m where "m = round_half_even (x / pow2 e)"
  from assms False have a: "a = of_int m * pow2 e" and fin: "\<bar>of_int m * pow2 e\<bar> < pow2 1024"
    by (auto simp: fl_def Let_def k_def[symmetric] e_def[symmetric] m_def[symmetric] not_le
        split: if_splits)
  have "\<bar>x\<bar> < pow2 (k + 1)"
    unfolding k_def using False by (intro ilog2_bounds) simp
  also have "pow2 (k + 1) \<le> pow2 (e + 53)"
    by (rule pow2_mono) (simp add: e_def)
  also have "pow2 (e + 53) = pow2 e * of_int (2 ^ 53)"
    by (simp add: pow2_def power_int_add)
  finally have "\<bar>x / pow2 e\<bar> \<le> of_int (2 ^ 53)"
    by (simp add: abs_divide pos_divide_le_eq mult.commute)
  then have "\<bar>m\<bar> \<le> 2 ^ 53"
    unfolding m_def by (rule round_half_even_bound)
  moreover have "- 1074 \<le> e" by (simp add: e_def)
  ultimately show ?thesis
    unfolding a using fin by (rule fl_exact)
qed

lemma is_double_fl [simp]: "is_double (fl x)"
  by (cases "fl x") (auto dest: fl_idem)

lemma fl_finite:
  assumes "\<bar>x\<bar> < pow2 1023"
  shows "finite_or_overflow (fl x) = Inr (fl x)"
proof (cases "x = 0")
  case True
  then show ?thesis by (simp add: fl_def finite_or_overflow_def)
next
  case False
  define k where "k = ilog2 \<bar>x\<bar>"
  define e where "e = max (k - 52) (- 1074)"
  define m where "m = round_half_even (x / pow2 e)"
  have ax: "0 < \<bar>x\<bar>" using False by simp
  have "pow2 k \<le> \<bar>x\<bar>"
    unfolding k_def using ax by (rule ilog2_bounds)
  with assms have "pow2 k < pow2 1023" by simp
  then have k: "k < 1023" by (simp add: pow2_less_iff)
  then have e: "e \<le> 970" by (simp add: e_def)
  have "\<bar>x\<bar> < pow2 (k + 1)"
    unfolding k_def using ax by (rule ilog2_bounds)
  also have "pow2 (k + 1) \<le> pow2 (e + 53)"
    by (rule pow2_mono) (simp add: e_def)
  also have "pow2 (e + 53) = pow2 e * of_int (2 ^ 53)"
    by (simp add: pow2_def power_int_add)
  finally have "\<bar>x / pow2 e\<bar> \<le> of_int (2 ^ 53)"
    by (simp add: abs_divide pos_divide_le_eq mult.commute)
  then have "\<bar>m\<bar> \<le> 2 ^ 53"
    unfolding m_def by (rule round_half_even_bound)
  then have "\<bar>rat_of_int m\<bar> \<le> of_int (2 ^ 53)"
    by (simp only: of_int_le_iff flip: of_int_abs)
  then have "\<bar>rat_of_int m\<bar> * pow2 e \<le> of_int (2 ^ 53) * pow2 e"
    by (simp add: mult_right_mono)
  also have "of_int (2 ^ 53) * pow2 e = pow2 (53 + e)"
    by (simp add: pow2_def power_int_add)
  also have "pow2 (53 + e) \<le> pow2 1023"
    by (rule pow2_mono) (use e in simp)
  also have "pow2 1023 < pow2 1024"
    by (simp add: pow2_less_iff)
  finally have "\<bar>of_int m * pow2 e\<bar> < pow2 1024"
    by (simp add: abs_mult)
  then show ?thesis
    using False
    by (simp add: fl_def Let_def k_def[symmetric] e_def[symmetric] m_def[symmetric]
        finite_or_overflow_def not_le)
qed

lemma fl_numeral: "numeral w \<le> (2 ^ 53 :: int) \<Longrightarrow> fl (numeral w) = Fin (numeral w)"
  using fl_of_int[of "numeral w"] by simp

lemmas parse_defs = py_int_def py_float_def strip_def is_space_def split_sign_def is_digit_def
  digits_val_def digit_val_def ord_def lower_def parse_decimal_def parse_exponent_def


lemma ten_pow_neg_4: "ten_pow_neg 4 = Fin (7378697629483821 / 73786976294838206464)"
  unfolding ten_pow_neg_def
  by (rule fl_eqI[where k="- 14" and e="- 66" and m="7378697629483821"]) (simp_all add: pow2_def)

lemma ten_pow_neg_3: "ten_pow_neg 3 = Fin (1152921504606847 / 1152921504606846976)"
  unfolding ten_pow_neg_def
  by (rule fl_eqI[where k="- 10" and e="- 62" and m="4611686018427388"]) (simp_all add: pow2_def)

lemma fl_lit_3_25: "fl (13 / 4) = Fin (13 / 4)"
  by (rule fl_eqI[where k="1" and e="- 51" and m="7318349394477056"]) (simp_all add: pow2_def)

lemma fl_lit_1_625: "fl (13 / 8) = Fin (13 / 8)"
  by (rule fl_eqI[where k="0" and e="- 52" and m="7318349394477056"]) (simp_all add: pow2_def)

lemma fl_lit_0_65: "fl (13 / 20) = Fin (5854679515581645 / 9007199254740992)"
  by (rule fl_eqI[where k="- 1" and e="- 53" and m="5854679515581645"]) (simp_all add: pow2_def)

lemma fl_lit_0_325: "fl (13 / 40) = Fin (5854679515581645 / 18014398509481984)"
  by (rule fl_eqI[where k="- 2" and e="- 54" and m="5854679515581645"]) (simp_all add: pow2_def)

lemma fl_px_32500: "fl (59951918239556045625 / 18446744073709551616) = Fin (13 / 4)"
  by (rule fl_eqI[where k="1" and e="- 51" and m="7318349394477056"]) (simp_all add: pow2_def)

lemma fl_px_16250: "fl (59951918239556045625 / 36893488147419103232) = Fin (13 / 8)"
  by (rule fl_eqI[where k="0" and e="- 52" and m="7318349394477056"]) (simp_all add: pow2_def)

lemma fl_px_06500: "fl (11990383647911209125 / 18446744073709551616) = Fin (5854679515581645 / 9007199254740992)"
  by (rule fl_eqI[where k="- 1" and e="- 53" and m="5854679515581645"]) (simp_all add: pow2_def)

lemma fl_px_03250: "fl (11990383647911209125 / 36893488147419103232) = Fin (5854679515581645 / 18014398509481984)"
  by (rule fl_eqI[where k="- 2" and e="- 54" and m="5854679515581645"]) (simp_all add: pow2_def)

lemma fl_px_40000: "fl (4611686018427388125 / 1152921504606846976) = Fin 4"
  by (rule fl_eqI[where k="2" and e="- 50" and m="4503599627370496"]) (simp_all add: pow2_def)

section \<open>Evaluating the fields of the example file names\<close>

lemma IM03_example_getWellId: "IM03_getWellId example_IM03 = ''A003''"
  by code_simp

lemma IM03_example_getWellColumn: "IM03_getWellColumn example_IM03 = Inr 3"
  by code_simp

lemma IM03_example_getWellRow: "IM03_getWellRow example_IM03 = Inr 1"
  by code_simp

lemma IM03_example_getWellIndex: "IM03_getWellIndex example_IM03 = Inr 3"
  by code_simp

lemma IM03_example_getWellSubPosition: "IM03_getWellSubPosition example_IM03 = Inr 1"
  by code_simp

lemma IM03_example_getLoopIteration: "IM03_getLoopIteration example_IM03 = Inr 1"
  by code_simp

lemma IM03_example_getZSlice: "IM03_getZSlice example_IM03 = Inr 10"
  by code_simp

lemma IM03_example_getLightPower: "IM03_getLightPower example_IM03 = Inr 40"
  by code_simp

lemma IM03_example_getLightExposure: "IM03_getLightExposure example_IM03 = Inr 20"
  by code_simp

lemma IM03_example_getTime: "IM03_getTime example_IM03 = Inr 1375404533"
  by code_simp

lemma IM04_example_getWellId: "IM04_getWellId example_IM04 = ''A001''"
  by code_simp

lemma IM04_example_getWellColumn: "IM04_getWellColumn example_IM04 = Inr 1"
  by code_simp

lemma IM04_example_getWellRow: "IM04_getWellRow example_IM04 = Inr 1"
  by code_simp

lemma IM04_example_getWellIndex: "IM04_getWellIndex example_IM04 = Inr 1"
  by code_simp

lemma IM04_example_getWellSubPosition: "IM04_getWellSubPosition example_IM04 = Inr 1"
  by code_simp

lemma IM04_example_getLoopIteration: "IM04_getLoopIteration example_IM04 = Inr 1"
  by code_simp

lemma IM04_example_getZSlice: "IM04_getZSlice example_IM04 = Inr 1"
  by code_simp

lemma IM04_example_getLightPower: "IM04_getLightPower example_IM04 = Inr 80"
  by code_simp

lemma IM04_example_getLightExposure: "IM04_getLightExposure example_IM04 = Inr 20"
  by code_simp

lemma IM04_example_getTime: "IM04_getTime example_IM04 = Inr 1374031802"
  by code_simp

lemma IM03_example_getPixelSize_um: "IM03_getPixelSize_um example_IM03 = Inr (fl 1.625)"
  by (simp add: IM03_getPixelSize_um_def py_slice_nonneg example_IM03_def bindE_def parse_defs
      fl_numeral ten_pow_neg_4 fl_px_16250 fl_lit_1_625)

lemma IM03_example_getTemperature: "IM03_getTemperature example_IM03 = Inr (fl 24.6)"
  by (simp add: IM03_getTemperature_def py_slice_nonneg example_IM03_def bindE_def parse_defs
      float_of_int_def fl_numeral finite_or_overflow_def)

lemma IM03_example_getXYPosition_mm: "IM03_getXYPosition_mm example_IM03 = Inr (fl 32.281, fl 10.963)"
  by (simp add: IM03_getXYPosition_mm_def py_slice_nonneg example_IM03_def bindE_def parse_defs
      int_truediv_def fl_finite pow2_def)

lemma IM03_example_getZPosition_um: "IM03_getZPosition_um example_IM03 = Inr (fl 21182.5)"
  by (simp add: IM03_getZPosition_um_def py_slice_nonneg example_IM03_def bindE_def parse_defs
      float_of_int_def fl_numeral finite_or_overflow_def)

lemma IM04_example_getPixelSize_um: "IM04_getPixelSize_um example_IM04 = Inr (fl 3.25)"
  by (simp add: IM04_getPixelSize_um_def py_slice_nonneg example_IM04_def bindE_def parse_defs
      fl_numeral ten_pow_neg_4 fl_px_32500 fl_lit_3_25)

lemma IM04_example_getTemperature: "IM04_getTemperature example_IM04 = Inr (fl 24.4)"
  by (simp add: IM04_getTemperature_def py_slice_nonneg example_IM04_def bindE_def parse_defs
      float_of_int_def fl_numeral finite_or_overflow_def)

lemma IM04_example_getXYPosition_mm: "IM04_getXYPosition_mm example_IM04 = Inr (fl 14.580, fl 11.262)"
  by (simp add: IM04_getXYPosition_mm_def py_slice_nonneg example_IM04_def bindE_def parse_defs
      int_truediv_def fl_finite pow2_def)

lemma IM04_example_getZPosition_um: "IM04_getZPosition_um example_IM04 = Inr (fl 20950.1)"
  by (simp add: IM04_getZPosition_um_def py_slice_nonneg example_IM04_def bindE_def parse_defs
      float_of_int_def fl_numeral finite_or_overflow_def)

lemmas example_fields = IM03_example_getWellId
  IM03_example_getWellColumn
  IM03_example_getWellRow
  IM03_example_getWellIndex
  IM03_example_getWellSubPosition
  IM03_example_getLoopIteration
  IM03_example_getZSlice
  IM03_example_getLightPower
  IM03_example_getLightExposure
  IM03_example_getTime
  IM04_example_getWellId
  IM04_example_getWellColumn
  IM04_example_getWellRow
  IM04_example_getWellIndex
  IM04_example_getWellSubPosition
  IM04_example_getLoopIteration
  IM04_example_getZSlice
  IM04_example_getLightPower
  IM04_example_getLightExposure
  IM04_example_getTime
  IM03_example_getPixelSize_um
  IM03_example_getTemperature
  IM03_example_getXYPosition_mm
  IM03_example_getZPosition_um
  IM04_example_getPixelSize_um
  IM04_example_getTemperature
  IM04_example_getXYPosition_mm
  IM04_example_getZPosition_um

section \<open>Facts about the lookup tables\<close>

lemma class_getattr_getPixelSize_um: "class_getattr IM03 ''getPixelSize_um'' = Inl AttributeError"
  by (simp add: class_getattr_def)

lemma pixelSizeToMag_keys:
  "pixelSizeToMag =
     [(Fin (13 / 4), 2), (Fin (13 / 8), 4), (Fin (5854679515581645 / 9007199254740992), 10),
      (Fin (5854679515581645 / 18014398509481984), 20)]"
  by (simp add: pixelSizeToMag_def fl_lit_3_25 fl_lit_1_625 fl_lit_0_65 fl_lit_0_325)

lemma pixelSizeToNA_keys:
  "map fst pixelSizeToNA =
     [Fin (13 / 4), Fin (13 / 8), Fin (5854679515581645 / 9007199254740992),
      Fin (5854679515581645 / 18014398509481984)]"
  by (simp add: pixelSizeToNA_def fl_lit_3_25 fl_lit_1_625 fl_lit_0_65 fl_lit_0_325)

lemma dict_get_pixelSizeToMag_values:
  "dict_get pixelSizeToMag p = Inr m \<Longrightarrow> m \<in> {2, 4, 10, 20}"
  by (auto simp: dict_get_def pixelSizeToMag_keys split: if_splits)

lemma getObjectiveMagnification_values:
  "IM03_getObjectiveMagnification n \<noteq> Inr 40" "IM04_getObjectiveMagnification n \<noteq> Inr 40"
  by (auto simp: IM03_getObjectiveMagnification_def IM04_getObjectiveMagnification_def
      bindE_def class_getattr_getPixelSize_um
      split: sum.splits if_splits dest!: dict_get_pixelSizeToMag_values)

lemma pixelSizeToNA_keys_values:
  "pixelSizeToNA =
     [(Fin (13 / 4), fl 0.06), (Fin (13 / 8), fl 0.13),
      (Fin (5854679515581645 / 9007199254740992), fl 0.3),
      (Fin (5854679515581645 / 18014398509481984), fl 0.45)]"
  by (simp add: pixelSizeToNA_def fl_lit_3_25 fl_lit_1_625 fl_lit_0_65 fl_lit_0_325)

lemma objective_lookup:
  "dict_contains pixelSizeToMag p = (p \<in> {fl 3.25, fl 1.625, fl 0.650, fl 0.325})"
  "dict_contains pixelSizeToNA p = (p \<in> {fl 3.25, fl 1.625, fl 0.650, fl 0.325})"
  "dict_get pixelSizeToMag (fl 3.25) = Inr 2" "dict_get pixelSizeToMag (fl 1.625) = Inr 4"
  "dict_get pixelSizeToMag (fl 0.650) = Inr 10" "dict_get pixelSizeToMag (fl 0.325) = Inr 20"
  "dict_get pixelSizeToNA (fl 3.25) = Inr (fl 0.06)"
  "dict_get pixelSizeToNA (fl 1.625) = Inr (fl 0.13)"
  "dict_get pixelSizeToNA (fl 0.650) = Inr (fl 0.3)"
  "dict_get pixelSizeToNA (fl 0.325) = Inr (fl 0.45)"
  by (auto simp: dict_contains_def dict_get_def pixelSizeToMag_keys pixelSizeToNA_keys_values
      fl_lit_3_25 fl_lit_1_625 fl_lit_0_65 fl_lit_0_325)

lemma objective_of_pixel_size:
  assumes "IM04_getPixelSize_um n4 = Inr p4" and "IM03_getPixelSize_um n3 = Inr p3"
  shows "IM04_getObjectiveMagnification n4
           = (if p4 \<in> {fl 3.25, fl 1.625, fl 0.650, fl 0.325} then dict_get pixelSizeToMag p4
              else Inl KeyError)"
    and "IM04_getObjectiveNA n4
           = (if p4 \<in> {fl 3.25, fl 1.625, fl 0.650, fl 0.325} then dict_get pixelSizeToNA p4
              else Inl KeyError)"
    and "IM03_getObjectiveNA n3
           = (if p3 \<in> {fl 3.25, fl 1.625, fl 0.650, fl 0.325} then dict_get pixelSizeToNA p3
              else Inl KeyError)"
    and "IM03_getObjectiveMagnification n3 = Inl AttributeError"
  using assms
  by (simp_all add: IM04_getObjectiveMagnification_def IM04_getObjectiveNA_def
      IM03_getObjectiveNA_def IM03_getObjectiveMagnification_def bindE_def objective_lookup(1,2)
      class_getattr_getPixelSize_um)

lemma IM04_unknown_pixel_size:
  "IM04_getPixelSize_um
     ''-A001--PO01--LO001--CO6--SL001--PX40000--PW0080--IN0020--TM244--X014580--Y011262--Z209501--T1374031802--WE00001.tif''
   = Inr (Fin 4)"
  by (simp add: IM04_getPixelSize_um_def py_slice_nonneg bindE_def parse_defs
      fl_numeral ten_pow_neg_4 fl_px_40000)

section \<open>Facts about the casts\<close>

lemma py_int_error: "py_int s = Inl e \<Longrightarrow> e = ValueError"
  by (auto simp: py_int_def split: prod.splits option.splits if_splits)

lemma py_float_error: "py_float s = Inl e \<Longrightarrow> e = ValueError"
  by (auto simp: py_float_def split: prod.splits option.splits if_splits)

lemma digits_val_snoc: "digits_val (ds @ [c]) = 10 * digits_val ds + digit_val c"
  by (simp add: digits_val_def)

lemma digits_val_bound:
  "list_all is_digit ds \<Longrightarrow> 0 \<le> digits_val ds \<and> digits_val ds < 10 ^ length ds"
proof (induction ds rule: rev_induct)
  case Nil
  then show ?case by (simp add: digits_val_def)
next
  case (snoc c ds)
  then have "0 \<le> digit_val c" "digit_val c \<le> 9"
    by (simp_all add: is_digit_def digit_val_def)
  with snoc show ?case
    by (simp add: digits_val_snoc)
qed

lemma drop_underscores_length:
  "drop_underscores p s = Some ds \<Longrightarrow> length ds \<le> length s"
proof (induction p s arbitrary: ds rule: drop_underscores.induct)
  case (1 prev)
  then show ?case by (simp split: if_splits)
next
  case (2 prev c cs)
  show ?case
  proof (cases "c = CHR ''_''")
    case True
    with 2(3) have "is_digit prev" "drop_underscores c cs = Some ds"
      by (auto split: if_splits)
    from 2(1)[OF True this] show ?thesis by simp
  next
    case False
    with 2(3) obtain ds' where *: "\<not> (prev = CHR ''_'' \<and> \<not> is_digit c)"
      "drop_underscores c cs = Some ds'" and ds: "ds = c # ds'"
      by (auto split: if_splits)
    from 2(2)[OF False *] ds show ?thesis by simp
  qed
qed

lemma strip_length: "length (strip s) \<le> length s"
proof -
  have "length (dropWhile P xs) \<le> length xs" for P and xs :: string
    by (induction xs) auto
  from this[of is_space "rev (dropWhile is_space s)"] this[of is_space s]
  show ?thesis by (simp add: strip_def)
qed

lemma split_sign_length: "split_sign s = (neg, body) \<Longrightarrow> length body \<le> length s"
  by (auto simp: split_sign_def split: list.splits if_splits)

lemma py_int_bound:
  assumes "py_int s = Inr x"
  shows "\<bar>x\<bar> < 10 ^ length s"
proof -
  obtain neg body where sp: "split_sign (strip s) = (neg, body)"
    by (cases "split_sign (strip s)")
  with assms obtain ds where ds: "drop_underscores (CHR 0x00) body = Some ds"
    "list_all is_digit ds" and x: "\<bar>x\<bar> = \<bar>digits_val ds\<bar>"
    by (auto simp: py_int_def split: option.splits if_splits)
  have "length ds \<le> length s"
    using drop_underscores_length[OF ds(1)] split_sign_length[OF sp] strip_length[of s]
    by simp
  then have "(10::int) ^ length ds \<le> 10 ^ length s"
    by (simp add: power_increasing)
  moreover have "\<bar>x\<bar> < 10 ^ length ds"
    using digits_val_bound[OF ds(2)] x by simp
  ultimately show ?thesis by (rule less_le_trans[rotated])
qed

lemma py_slice_length:
  "0 \<le> a \<Longrightarrow> 0 \<le> b \<Longrightarrow> length (py_slice s a b) \<le> nat (b - a)"
  by (simp add: py_slice_nonneg)

lemma int_truediv_1000:
  assumes "py_int (py_slice s a b) = Inr x" "0 \<le> a" "0 \<le> b" "b - a \<le> 6"
  shows "int_truediv x 1000 = Inr (fl (of_int x / 1000))"
proof -
  have "length (py_slice s a b) \<le> 6"
    using py_slice_length[of a b s] assms by simp
  then have "(10::int) ^ length (py_slice s a b) \<le> 10 ^ 6"
    by (intro power_increasing) simp_all
  with py_int_bound[OF assms(1)] have "\<bar>x\<bar> < 10 ^ 6" by simp
  then have "\<bar>rat_of_int x\<bar> < of_int (10 ^ 6)"
    by (simp only: of_int_less_iff flip: of_int_abs)
  then have "\<bar>rat_of_int x / 1000\<bar> < pow2 1023"
    by (simp add: pow2_def)
  then show ?thesis
    by (simp add: int_truediv_def fl_finite)
qed


lemma in_set_dropWhile: "c \<in> set xs \<Longrightarrow> \<not> P c \<Longrightarrow> c \<in> set (dropWhile P xs)"
  by (induction xs) auto

lemma in_set_strip: "c \<in> set s \<Longrightarrow> \<not> is_space c \<Longrightarrow> c \<in> set (strip s)"
  using in_set_dropWhile[of c "rev (dropWhile is_space s)" is_space]
    in_set_dropWhile[of c s is_space]
  by (simp add: strip_def)

lemma in_set_split_sign:
  "split_sign s = (neg, body) \<Longrightarrow> c \<in> set s \<Longrightarrow> c \<noteq> CHR ''+'' \<Longrightarrow> c \<noteq> CHR ''-''
   \<Longrightarrow> c \<in> set body"
  by (auto simp: split_sign_def split: list.splits if_splits)

lemma in_set_drop_underscores:
  "drop_underscores p s = Some ds \<Longrightarrow> c \<in> set s \<Longrightarrow> c \<noteq> CHR ''_'' \<Longrightarrow> c \<in> set ds"
proof (induction p s arbitrary: ds rule: drop_underscores.induct)
  case (1 prev)
  then show ?case by simp
next
  case (2 prev d cs)
  show ?case
  proof (cases "d = CHR ''_''")
    case True
    with 2(3) have "is_digit prev" "drop_underscores d cs = Some ds"
      by (auto split: if_splits)
    moreover from True 2(4,5) have "c \<in> set cs" by auto
    ultimately show ?thesis using 2(1)[OF True] 2(5) by blast
  next
    case False
    with 2(3) obtain ds' where *: "\<not> (prev = CHR ''_'' \<and> \<not> is_digit d)"
      "drop_underscores d cs = Some ds'" and ds: "ds = d # ds'"
      by (auto split: if_splits)
    show ?thesis
    proof (cases "c = d")
      case True
      with ds show ?thesis by simp
    next
      case False
      with 2(4) have "c \<in> set cs" by simp
      with 2(2)[OF \<open>d \<noteq> CHR ''_''\<close> *] 2(5) ds show ?thesis by simp
    qed
  qed
qed

lemma py_int_bad_character:
  assumes "c \<in> set s" "\<not> is_digit c" "\<not> is_space c"
    "c \<noteq> CHR ''+''" "c \<noteq> CHR ''-''" "c \<noteq> CHR ''_''"
  shows "py_int s = Inl ValueError"
proof -
  obtain neg body where sp: "split_sign (strip s) = (neg, body)"
    by (cases "split_sign (strip s)")
  have body: "c \<in> set body"
    using in_set_split_sign[OF sp in_set_strip[OF assms(1,3)] assms(4,5)] .
  show ?thesis
  proof (cases "drop_underscores (CHR 0x00) body")
    case None
    then show ?thesis by (simp add: py_int_def sp)
  next
    case (Some ds)
    from in_set_drop_underscores[OF Some body assms(6)] assms(2)
    have "\<not> list_all is_digit ds" by (auto simp: list_all_iff)
    then show ?thesis by (simp add: py_int_def sp Some)
  qed
qed


lemma getXYPosition_mm_second:
  assumes "py_int (py_slice n a2 b2) = Inl e" "0 \<le> a1" "0 \<le> b1" "b1 - a1 \<le> 6"
  shows "bindE (bindE (py_int (py_slice n a1 b1)) (\<lambda>x. int_truediv x 1000)) (\<lambda>X0mm.
         bindE (bindE (py_int (py_slice n a2 b2)) (\<lambda>x. int_truediv x 1000)) (\<lambda>Y0mm.
         Inr (X0mm, Y0mm))) = Inl ValueError"
proof (cases "py_int (py_slice n a1 b1)")
  case (Inl e')
  then show ?thesis
    using py_int_error[OF Inl] by (simp add: bindE_def)
next
  case (Inr x)
  then show ?thesis
    using int_truediv_1000[OF Inr assms(2-4)] py_int_error[OF assms(1)] assms(1)
    by (simp add: bindE_def)
qed

section \<open>Facts about the status client\<close>

lemma extract_text_between:
  "0x1F \<notin> set pre \<Longrightarrow> extract_text (pre @ 0x1F # mid @ [t]) = utf8_decode mid"
  by (simp add: extract_text_def py_find_first py_slice_between)

lemma extract_text_no_separator:
  "0x1F \<notin> set out \<Longrightarrow> extract_text out = utf8_decode (butlast out)"
  by (simp add: extract_text_def py_find_absent py_slice_all_but_last)

lemma utf8_decode_ascii:
  "list_all (\<lambda>b. b \<le> 0x7F) bs \<Longrightarrow> utf8_decode bs = Inr (map uint bs)"
  by (induction bs) (simp_all add: cons_ok_def)

lemma getVersion_result:
  "incoming self = out # rest \<Longrightarrow> map_option fst (getVersion self) = Some (extract_text out)"
  by (simp add: getVersion_def getFeedback_def send_def Let_def)

lemma getStatus_result:
  "incoming self = out # rest \<Longrightarrow> map_option fst (getStatus self) = Some (extract_text out)"
  by (simp add: getStatus_def getFeedback_def send_def Let_def)

text \<open>Decoding inverts encoding: bytes compared as integers, then one lemma for each length.\<close>

lemma uint_byte: "0 \<le> n \<Longrightarrow> n < 256 \<Longrightarrow> uint (of_int n :: byte) = n"
  by (simp add: uint_word_of_int take_bit_eq_mod)

lemma byte_le_iff:
  "0 \<le> n \<Longrightarrow> n < 256 \<Longrightarrow> 0 \<le> m \<Longrightarrow> m < 256 \<Longrightarrow> ((of_int n :: byte) \<le> of_int m) = (n \<le> m)"
  by (simp add: word_le_def uint_byte)

lemma byte_eq_iff:
  "0 \<le> n \<Longrightarrow> n < 256 \<Longrightarrow> 0 \<le> m \<Longrightarrow> m < 256 \<Longrightarrow> ((of_int n :: byte) = of_int m) = (n = m)"
  by (metis uint_byte)

lemma cont_byte:
  assumes "0 \<le> r" "r < 64"
  shows "is_cont (of_int (128 + r))" and "cont_bits (of_int (128 + r)) = r"
proof -
  have n: "0 \<le> 128 + r" "128 + r < 256" using assms by simp_all
  show "is_cont (of_int (128 + r))"
    unfolding is_cont_def
    using byte_le_iff[of 128 "128 + r"] byte_le_iff[of "128 + r" 191] assms by simp
  show "cont_bits (of_int (128 + r)) = r"
    unfolding cont_bits_def using uint_byte[OF n] by simp
qed

lemma lead_byte:
  assumes "0 \<le> l" "l < 256"
  shows "((of_int l :: byte) \<le> 0x7F) = (l \<le> 127)"
    and "((0xC2 :: byte) \<le> of_int l) = (194 \<le> l)" and "((of_int l :: byte) \<le> 0xDF) = (l \<le> 223)"
    and "((0xE0 :: byte) \<le> of_int l) = (224 \<le> l)" and "((of_int l :: byte) \<le> 0xEF) = (l \<le> 239)"
    and "((0xF0 :: byte) \<le> of_int l) = (240 \<le> l)" and "((of_int l :: byte) \<le> 0xF4) = (l \<le> 244)"
    and "((of_int l :: byte) = 0xE0) = (l = 224)" and "((of_int l :: byte) = 0xED) = (l = 237)"
    and "((of_int l :: byte) = 0xF0) = (l = 240)" and "((of_int l :: byte) = 0xF4) = (l = 244)"
    and "uint (of_int l :: byte) = l"
  using assms byte_le_iff[of l 127] byte_le_iff[of 194 l] byte_le_iff[of l 223]
    byte_le_iff[of 224 l] byte_le_iff[of l 239] byte_le_iff[of 240 l] byte_le_iff[of l 244]
    byte_eq_iff[of l 224] byte_eq_iff[of l 237] byte_eq_iff[of l 240] byte_eq_iff[of l 244]
    uint_byte[of l]
  by simp_all

lemma second_byte:
  assumes "0 \<le> r" "r < 64"
  shows "((0xA0 :: byte) \<le> of_int (128 + r)) = (32 \<le> r)"
    and "((of_int (128 + r) :: byte) \<le> 0x9F) = (r < 32)"
    and "((0x90 :: byte) \<le> of_int (128 + r)) = (16 \<le> r)"
    and "((of_int (128 + r) :: byte) \<le> 0x8F) = (r < 16)"
  using assms byte_le_iff[of 160 "128 + r"] byte_le_iff[of "128 + r" 159]
    byte_le_iff[of 144 "128 + r"] byte_le_iff[of "128 + r" 143]
  by auto

lemma decode_1:
  assumes "0 \<le> l" "l \<le> 127"
  shows "utf8_decode (of_int l # bs) = cons_ok l (utf8_decode bs)"
proof -
  have l: "0 \<le> l" "l < 256" using assms by simp_all
  show ?thesis
    using assms by (simp add: lead_byte[OF l] del: of_int_add)
qed

lemma decode_2:
  assumes "194 \<le> l" "l \<le> 223" "0 \<le> r" "r < 64"
  shows "utf8_decode (of_int l # of_int (128 + r) # bs)
         = cons_ok ((l - 192) * 64 + r) (utf8_decode bs)"
proof -
  have l: "0 \<le> l" "l < 256" using assms by simp_all
  show ?thesis
    using assms
    by (simp add: lead_byte[OF l] cont_byte[OF assms(3,4)] del: of_int_add)
qed

lemma decode_3:
  assumes "224 \<le> l" "l \<le> 239" "0 \<le> r1" "r1 < 64" "0 \<le> r2" "r2 < 64"
    and "l = 224 \<Longrightarrow> 32 \<le> r1" and "l = 237 \<Longrightarrow> r1 < 32"
  shows "utf8_decode (of_int l # of_int (128 + r1) # of_int (128 + r2) # bs)
         = cons_ok ((l - 224) * 4096 + r1 * 64 + r2) (utf8_decode bs)"
proof -
  have l: "0 \<le> l" "l < 256" using assms by simp_all
  show ?thesis
    using assms
    by (simp add: lead_byte[OF l] cont_byte[OF assms(3,4)] cont_byte[OF assms(5,6)]
        second_byte[OF assms(3,4)] del: of_int_add)
qed

lemma decode_4:
  assumes "240 \<le> l" "l \<le> 244" "0 \<le> r1" "r1 < 64" "0 \<le> r2" "r2 < 64" "0 \<le> r3" "r3 < 64"
    and "l = 240 \<Longrightarrow> 16 \<le> r1" and "l = 244 \<Longrightarrow> r1 < 16"
  shows "utf8_decode (of_int l # of_int (128 + r1) # of_int (128 + r2) # of_int (128 + r3) # bs)
         = cons_ok ((l - 240) * 262144 + r1 * 4096 + r2 * 64 + r3) (utf8_decode bs)"
proof -
  have l: "0 \<le> l" "l < 256" using assms by simp_all
  show ?thesis
    using assms
    by (simp add: lead_byte[OF l] cont_byte[OF assms(3,4)] cont_byte[OF assms(5,6)]
        cont_byte[OF assms(7,8)] second_byte[OF assms(3,4)] del: of_int_add)
qed


lemma base64_digits:
  fixes cp :: int
  shows "cp div 4096 = cp div 64 div 64"
    and "cp div 262144 = cp div 64 div 64 div 64"
    and "cp = cp div 64 * 64 + cp mod 64"
    and "cp div 64 = cp div 64 div 64 * 64 + cp div 64 mod 64"
    and "cp div 64 div 64 = cp div 64 div 64 div 64 * 64 + cp div 64 div 64 mod 64"
proof -
  show a: "cp div 4096 = cp div 64 div 64"
    using zdiv_zmult2_eq[where a=cp and b=64 and c=64] by simp
  have "cp div 262144 = cp div 4096 div 64"
    using zdiv_zmult2_eq[where a=cp and b=4096 and c=64] by simp
  then show "cp div 262144 = cp div 64 div 64 div 64"
    by (simp only: a)
qed simp_all

lemma utf8_decode_encode_code_point:
  assumes "valid_code_point cp"
  shows "utf8_decode (utf8_encode_code_point cp @ bs) = cons_ok cp (utf8_decode bs)"
proof -
  from assms have v: "0 \<le> cp" "cp \<le> 1114111" "cp < 55296 \<or> 57343 < cp"
    by (auto simp: valid_code_point_def)
  define q1 where "q1 = cp div 64"
  define q2 where "q2 = q1 div 64"
  define q3 where "q3 = q2 div 64"
  define d0 where "d0 = cp mod 64"
  define d1 where "d1 = q1 mod 64"
  define d2 where "d2 = q2 mod 64"
  have d: "0 \<le> d0" "d0 < 64" "0 \<le> d1" "d1 < 64" "0 \<le> d2" "d2 < 64"
    by (simp_all add: d0_def d1_def d2_def)
  have e: "cp = q1 * 64 + d0" "q1 = q2 * 64 + d1" "q2 = q3 * 64 + d2"
    by (simp_all add: q1_def q2_def q3_def d0_def d1_def d2_def)
  have r: "cp div 64 = q1" "cp div 4096 = q2" "cp div 262144 = q3"
    "cp mod 64 = d0" "q1 mod 64 = d1" "q2 mod 64 = d2"
    by (simp_all add: base64_digits(1,2) q1_def q2_def q3_def d0_def d1_def d2_def)
  have c3: "cp = q2 * 4096 + d1 * 64 + d0"
    using e(1,2) by linarith
  have c4: "cp = q3 * 262144 + d2 * 4096 + d1 * 64 + d0"
    using c3 e(3) by linarith
  consider "cp < 128" | "128 \<le> cp" "cp < 2048" | "2048 \<le> cp" "cp < 65536" | "65536 \<le> cp"
    by linarith
  then show ?thesis
  proof cases
    case 1
    then have "utf8_encode_code_point cp = [of_int cp]"
      by (simp add: utf8_encode_code_point_def)
    moreover have "utf8_decode (of_int cp # bs) = cons_ok cp (utf8_decode bs)"
      using v(1) 1 by (intro decode_1) simp_all
    ultimately show ?thesis
      by (simp only: append_Cons append_Nil)
  next
    case 2
    have b: "194 \<le> 192 + q1" "192 + q1 \<le> 223"
      using 2 e(1) d(1,2) by linarith+
    have "utf8_decode (of_int (192 + q1) # of_int (128 + d0) # bs)
          = cons_ok ((192 + q1 - 192) * 64 + d0) (utf8_decode bs)"
      using b d(1,2) by (rule decode_2)
    moreover have "(192 + q1 - 192) * 64 + d0 = cp"
      using e(1) by simp
    moreover have "utf8_encode_code_point cp = [of_int (192 + q1), of_int (128 + d0)]"
      using 2 by (simp add: utf8_encode_code_point_def r del: of_int_add)
    ultimately show ?thesis
      by (simp only: append_Cons append_Nil)
  next
    case 3
    have b: "224 \<le> 224 + q2" "224 + q2 \<le> 239"
      using 3 c3 d by linarith+
    have lo: "224 + q2 = 224 \<Longrightarrow> 32 \<le> d1"
      using 3(1) c3 d(2) by linarith
    have hi: "224 + q2 = 237 \<Longrightarrow> d1 < 32"
      using v(3) c3 d by linarith
    have "utf8_decode (of_int (224 + q2) # of_int (128 + d1) # of_int (128 + d0) # bs)
          = cons_ok ((224 + q2 - 224) * 4096 + d1 * 64 + d0) (utf8_decode bs)"
      using b d(3,4) d(1,2) lo hi by (rule decode_3)
    moreover have "(224 + q2 - 224) * 4096 + d1 * 64 + d0 = cp"
      using c3 by simp
    moreover have "utf8_encode_code_point cp
        = [of_int (224 + q2), of_int (128 + d1), of_int (128 + d0)]"
      using 3 by (simp add: utf8_encode_code_point_def r del: of_int_add)
    ultimately show ?thesis
      by (simp only: append_Cons append_Nil)
  next
    case 4
    have b: "240 \<le> 240 + q3" "240 + q3 \<le> 244"
      using 4 v(2) c4 d by linarith+
    have lo: "240 + q3 = 240 \<Longrightarrow> 16 \<le> d2"
      using 4 c4 d by linarith
    have hi: "240 + q3 = 244 \<Longrightarrow> d2 < 16"
      using v(2) c4 d by linarith
    have "utf8_decode (of_int (240 + q3) # of_int (128 + d2) # of_int (128 + d1)
            # of_int (128 + d0) # bs)
          = cons_ok ((240 + q3 - 240) * 262144 + d2 * 4096 + d1 * 64 + d0) (utf8_decode bs)"
      using b d(5,6) d(3,4) d(1,2) lo hi by (rule decode_4)
    moreover have "(240 + q3 - 240) * 262144 + d2 * 4096 + d1 * 64 + d0 = cp"
      using c4 by simp
    moreover have "utf8_encode_code_point cp
        = [of_int (240 + q3), of_int (128 + d2), of_int (128 + d1), of_int (128 + d0)]"
      using 4 by (simp add: utf8_encode_code_point_def r del: of_int_add)
    ultimately show ?thesis
      by (simp only: append_Cons append_Nil)
  qed
qed

lemma utf8_decode_encode:
  "list_all valid_code_point cps \<Longrightarrow> utf8_decode (utf8_encode cps) = Inr cps"
  by (induction cps)
    (simp_all add: utf8_encode_def utf8_decode_encode_code_point cons_ok_def)

text \<open>
  Conversely, what decodes is an encoding: every byte sequence that the decoding accepts
  is the encoding of the text it returns, and the only error is \<^verbatim>\<open>UnicodeDecodeError\<close>.
\<close>

lemma byte_of_int:
  obtains l where "b = (of_int l :: byte)" "0 \<le> l" "l < 256"
proof
  show "b = of_int (uint b)" by simp
  show "0 \<le> uint b" by simp
  show "uint b < 256" using uint_bounded[of b] by simp
qed

lemma is_cont_inv:
  assumes "is_cont c"
  obtains r where "c = of_int (128 + r)" "0 \<le> r" "r < 64"
proof
  from assms have "128 \<le> uint c" "uint c \<le> 191"
    by (simp_all add: is_cont_def word_le_def)
  then show "0 \<le> uint c - 128" "uint c - 128 < 64" by simp_all
  show "c = of_int (128 + (uint c - 128))" by simp
qed

lemma divmod64:
  fixes q r :: int
  assumes "0 \<le> r" "r < 64"
  shows "(q * 64 + r) div 64 = q" and "(q * 64 + r) mod 64 = r"
  using assms by simp_all

lemma encode_1:
  assumes "0 \<le> l" "l \<le> 127"
  shows "valid_code_point l" and "utf8_encode_code_point l = [of_int l]"
  using assms by (simp_all add: valid_code_point_def utf8_encode_code_point_def)

lemma encode_2:
  assumes "194 \<le> l" "l \<le> 223" "0 \<le> r" "r < 64"
  defines "cp \<equiv> (l - 192) * 64 + r"
  shows "valid_code_point cp" and "utf8_encode_code_point cp = [of_int l, of_int (128 + r)]"
proof -
  have b: "128 \<le> cp" "cp < 2048"
    using assms(1-4) by (simp_all add: cp_def)
  have d: "cp div 64 = l - 192" "cp mod 64 = r"
    unfolding cp_def using assms(3,4) by (rule divmod64)+
  show "valid_code_point cp"
    using b by (simp add: valid_code_point_def)
  show "utf8_encode_code_point cp = [of_int l, of_int (128 + r)]"
    using b by (simp add: utf8_encode_code_point_def d del: of_int_add)
qed

lemma encode_3:
  assumes "224 \<le> l" "l \<le> 239" "0 \<le> r1" "r1 < 64" "0 \<le> r2" "r2 < 64"
    and "l = 224 \<Longrightarrow> 32 \<le> r1" and "l = 237 \<Longrightarrow> r1 < 32"
  defines "cp \<equiv> (l - 224) * 4096 + r1 * 64 + r2"
  shows "valid_code_point cp"
    and "utf8_encode_code_point cp = [of_int l, of_int (128 + r1), of_int (128 + r2)]"
proof -
  have lo: "2048 \<le> cp"
  proof (cases "l = 224")
    case True
    with assms(7) have "32 \<le> r1" by simp
    with assms(5) True show ?thesis by (simp add: cp_def)
  next
    case False
    with assms(1) have "225 \<le> l" by simp
    with assms(3,5) show ?thesis by (simp add: cp_def)
  qed
  have hi: "cp < 65536"
    using assms(2,4,6) by (simp add: cp_def)
  have s: "cp < 55296 \<or> 57343 < cp"
  proof -
    consider "l \<le> 236" | "l = 237" | "238 \<le> l" by linarith
    then show ?thesis
    proof cases
      case 1
      with assms(4,6) show ?thesis by (simp add: cp_def)
    next
      case 2
      with assms(8) have "r1 < 32" by simp
      with 2 assms(6) show ?thesis by (simp add: cp_def)
    next
      case 3
      with assms(3,5) show ?thesis by (simp add: cp_def)
    qed
  qed
  have q: "cp = ((l - 224) * 64 + r1) * 64 + r2"
    by (simp add: cp_def algebra_simps)
  have d0: "cp mod 64 = r2" and q1: "cp div 64 = (l - 224) * 64 + r1"
    unfolding q using assms(5,6) by (rule divmod64)+
  have d1: "cp div 64 mod 64 = r1" and q2: "cp div 64 div 64 = l - 224"
    unfolding q1 using assms(3,4) by (rule divmod64)+
  have d: "cp div 4096 = l - 224"
    using base64_digits(1)[of cp] q2 by simp
  show "valid_code_point cp"
    using lo hi s by (auto simp: valid_code_point_def)
  show "utf8_encode_code_point cp = [of_int l, of_int (128 + r1), of_int (128 + r2)]"
    using lo hi by (simp add: utf8_encode_code_point_def d d0 d1 del: of_int_add)
qed

lemma encode_4:
  assumes "240 \<le> l" "l \<le> 244" "0 \<le> r1" "r1 < 64" "0 \<le> r2" "r2 < 64" "0 \<le> r3" "r3 < 64"
    and "l = 240 \<Longrightarrow> 16 \<le> r1" and "l = 244 \<Longrightarrow> r1 < 16"
  defines "cp \<equiv> (l - 240) * 262144 + r1 * 4096 + r2 * 64 + r3"
  shows "valid_code_point cp"
    and "utf8_encode_code_point cp
         = [of_int l, of_int (128 + r1), of_int (128 + r2), of_int (128 + r3)]"
proof -
  have lo: "65536 \<le> cp"
  proof (cases "l = 240")
    case True
    with assms(9) have "16 \<le> r1" by simp
    with assms(5,7) True show ?thesis by (simp add: cp_def)
  next
    case False
    with assms(1) have "241 \<le> l" by simp
    with assms(3,5,7) show ?thesis by (simp add: cp_def)
  qed
  have hi: "cp \<le> 1114111"
  proof (cases "l = 244")
    case True
    with assms(10) have "r1 < 16" by simp
    with assms(6,8) True show ?thesis by (simp add: cp_def)
  next
    case False
    with assms(2) have "l \<le> 243" by simp
    with assms(4,6,8) show ?thesis by (simp add: cp_def)
  qed
  have q: "cp = (((l - 240) * 64 + r1) * 64 + r2) * 64 + r3"
    by (simp add: cp_def algebra_simps)
  have d0: "cp mod 64 = r3" and q1: "cp div 64 = ((l - 240) * 64 + r1) * 64 + r2"
    unfolding q using assms(7,8) by (rule divmod64)+
  have d1: "cp div 64 mod 64 = r2" and q2: "cp div 64 div 64 = (l - 240) * 64 + r1"
    unfolding q1 using assms(5,6) by (rule divmod64)+
  have d2: "cp div 64 div 64 mod 64 = r1" and q3: "cp div 64 div 64 div 64 = l - 240"
    unfolding q2 using assms(3,4) by (rule divmod64)+
  have d: "cp div 4096 mod 64 = r1" "cp div 262144 = l - 240"
    using base64_digits(1,2)[of cp] d2 q3 by simp_all
  show "valid_code_point cp"
    using lo hi by (simp add: valid_code_point_def)
  show "utf8_encode_code_point cp
        = [of_int l, of_int (128 + r1), of_int (128 + r2), of_int (128 + r3)]"
    using lo by (simp add: utf8_encode_code_point_def d d0 d1 del: of_int_add)
qed


lemma cons_ok_Inr:
  assumes "cons_ok cp r = Inr cps"
  obtains cps' where "r = Inr cps'" "cps = cp # cps'"
  using assms by (auto simp: cons_ok_def split: sum.splits)

lemma utf8_decode_step:
  assumes "utf8_decode (b # bs) = Inr cps"
  shows "\<exists>cp r cps'. valid_code_point cp \<and> b # bs = utf8_encode_code_point cp @ r
           \<and> utf8_decode r = Inr cps' \<and> cps = cp # cps'"
proof -
  obtain l where l: "b = of_int l" "0 \<le> l" "l < 256" by (rule byte_of_int)
  note lb = lead_byte[OF l(2,3)]
  consider (1) "l \<le> 127" | (2) "194 \<le> l" "l \<le> 223" | (3) "224 \<le> l" "l \<le> 239"
    | (4) "240 \<le> l" "l \<le> 244" | (5) "127 < l" "l < 194 \<or> 244 < l"
    by linarith
  then show ?thesis
  proof cases
    case 1
    have "utf8_decode (of_int l # bs) = cons_ok l (utf8_decode bs)"
      using l(2) 1 by (rule decode_1)
    with assms l(1) have "cons_ok l (utf8_decode bs) = Inr cps" by simp
    then obtain cps' where c: "utf8_decode bs = Inr cps'" "cps = l # cps'"
      by (rule cons_ok_Inr)
    from encode_1[OF l(2) 1] l(1) c show ?thesis
      by (intro exI[of _ l] exI[of _ bs] exI[of _ cps']) simp
  next
    case 2
    from assms 2 obtain c1 r where bs: "bs = c1 # r" and c1: "is_cont c1"
      unfolding l(1) by (auto simp: lb split: list.splits if_splits)
    from c1 obtain r1 where r1: "c1 = of_int (128 + r1)" "0 \<le> r1" "r1 < 64"
      by (rule is_cont_inv)
    have "utf8_decode (of_int l # of_int (128 + r1) # r)
          = cons_ok ((l - 192) * 64 + r1) (utf8_decode r)"
      using 2 r1(2,3) by (rule decode_2)
    with assms have "cons_ok ((l - 192) * 64 + r1) (utf8_decode r) = Inr cps"
      by (simp only: l(1) bs r1(1))
    then obtain cps' where c: "utf8_decode r = Inr cps'" "cps = ((l - 192) * 64 + r1) # cps'"
      by (rule cons_ok_Inr)
    from encode_2[OF 2 r1(2,3)] c show ?thesis
      by (intro exI[of _ "(l - 192) * 64 + r1"] exI[of _ r] exI[of _ cps'])
        (simp only: l(1) bs r1(1) append_Cons append_Nil simp_thms)
  next
    case 3
    from assms 3 obtain c1 c2 r where bs: "bs = c1 # c2 # r"
      and c: "is_cont c1" "is_cont c2"
      and lo: "l = 224 \<Longrightarrow> 0xA0 \<le> c1" and hi: "l = 237 \<Longrightarrow> c1 \<le> 0x9F"
      unfolding l(1) by (auto simp: lb split: list.splits if_splits)
    from c(1) obtain r1 where r1: "c1 = of_int (128 + r1)" "0 \<le> r1" "r1 < 64"
      by (rule is_cont_inv)
    from c(2) obtain r2 where r2: "c2 = of_int (128 + r2)" "0 \<le> r2" "r2 < 64"
      by (rule is_cont_inv)
    have lo': "l = 224 \<Longrightarrow> 32 \<le> r1" and hi': "l = 237 \<Longrightarrow> r1 < 32"
      using lo hi second_byte(1,2)[OF r1(2,3)] unfolding r1(1) by blast+
    define cp where "cp = (l - 224) * 4096 + r1 * 64 + r2"
    have "utf8_decode (of_int l # of_int (128 + r1) # of_int (128 + r2) # r)
          = cons_ok cp (utf8_decode r)"
      unfolding cp_def using 3 r1(2,3) r2(2,3) lo' hi' by (rule decode_3)
    with assms have "cons_ok cp (utf8_decode r) = Inr cps"
      by (simp only: l(1) bs r1(1) r2(1))
    then obtain cps' where d: "utf8_decode r = Inr cps'" "cps = cp # cps'"
      by (rule cons_ok_Inr)
    from encode_3[OF 3 r1(2,3) r2(2,3) lo' hi'] d show ?thesis
      unfolding cp_def [symmetric]
      by (intro exI[of _ cp] exI[of _ r] exI[of _ cps'])
        (simp only: l(1) bs r1(1) r2(1) append_Cons append_Nil simp_thms)
  next
    case 4
    from assms 4 obtain c1 c2 c3 r where bs: "bs = c1 # c2 # c3 # r"
      and c: "is_cont c1" "is_cont c2" "is_cont c3"
      and lo: "l = 240 \<Longrightarrow> 0x90 \<le> c1" and hi: "l = 244 \<Longrightarrow> c1 \<le> 0x8F"
      unfolding l(1) by (auto simp: lb split: list.splits if_splits)
    from c(1) obtain r1 where r1: "c1 = of_int (128 + r1)" "0 \<le> r1" "r1 < 64"
      by (rule is_cont_inv)
    from c(2) obtain r2 where r2: "c2 = of_int (128 + r2)" "0 \<le> r2" "r2 < 64"
      by (rule is_cont_inv)
    from c(3) obtain r3 where r3: "c3 = of_int (128 + r3)" "0 \<le> r3" "r3 < 64"
      by (rule is_cont_inv)
    have lo': "l = 240 \<Longrightarrow> 16 \<le> r1" and hi': "l = 244 \<Longrightarrow> r1 < 16"
      using lo hi second_byte(3,4)[OF r1(2,3)] unfolding r1(1) by blast+
    define cp where "cp = (l - 240) * 262144 + r1 * 4096 + r2 * 64 + r3"
    have "utf8_decode (of_int l # of_int (128 + r1) # of_int (128 + r2) # of_int (128 + r3) # r)
          = cons_ok cp (utf8_decode r)"
      unfolding cp_def using 4 r1(2,3) r2(2,3) r3(2,3) lo' hi' by (rule decode_4)
    with assms have "cons_ok cp (utf8_decode r) = Inr cps"
      by (simp only: l(1) bs r1(1) r2(1) r3(1))
    then obtain cps' where d: "utf8_decode r = Inr cps'" "cps = cp # cps'"
      by (rule cons_ok_Inr)
    from encode_4[OF 4 r1(2,3) r2(2,3) r3(2,3) lo' hi'] d show ?thesis
      unfolding cp_def [symmetric]
      by (intro exI[of _ cp] exI[of _ r] exI[of _ cps'])
        (simp only: l(1) bs r1(1) r2(1) r3(1) append_Cons append_Nil simp_thms)
  next
    case 5
    with assms show ?thesis
      unfolding l(1) by (auto simp: lb)
  qed
qed

lemma utf8_encode_decode:
  "utf8_decode bs = Inr cps \<Longrightarrow> list_all valid_code_point cps \<and> utf8_encode cps = bs"
proof (induction "length bs" arbitrary: bs cps rule: less_induct)
  case less
  show ?case
  proof (cases bs)
    case Nil
    with less.prems show ?thesis by (simp add: utf8_encode_def)
  next
    case (Cons b bs')
    with less.prems have "utf8_decode (b # bs') = Inr cps" by simp
    from utf8_decode_step[OF this] obtain cp r cps'
      where s: "valid_code_point cp" "b # bs' = utf8_encode_code_point cp @ r"
        "utf8_decode r = Inr cps'" "cps = cp # cps'"
      by blast
    have "utf8_encode_code_point cp \<noteq> []"
      by (simp add: utf8_encode_code_point_def)
    then have "0 < length (utf8_encode_code_point cp)" by simp
    moreover have "length bs = length (utf8_encode_code_point cp) + length r"
      using s(2) Cons by (metis length_append)
    ultimately have "length r < length bs" by simp
    from less.hyps[OF this s(3)] s Cons show ?thesis
      by (simp add: utf8_encode_def)
  qed
qed

lemma cons_ok_pred:
  "pred_sum P (\<lambda>_. True) (cons_ok cp r) = pred_sum P (\<lambda>_. True) r"
  by (cases r) (simp_all add: cons_ok_def)

lemma utf8_decode_pred:
  "pred_sum (\<lambda>e. e = UnicodeDecodeError) (\<lambda>_. True) (utf8_decode bs)"
  by (induction bs rule: utf8_decode.induct) (simp_all add: cons_ok_pred split: list.split)

lemma utf8_decode_error:
  "utf8_decode bs = Inl e \<Longrightarrow> e = UnicodeDecodeError"
  using utf8_decode_pred[of bs] by simp

lemma utf8_decode_invalid:
  assumes "\<And>cps. list_all valid_code_point cps \<Longrightarrow> bs \<noteq> utf8_encode cps"
  shows "utf8_decode bs = Inl UnicodeDecodeError"
proof (cases "utf8_decode bs")
  case (Inl e)
  then show ?thesis using utf8_decode_error by simp
next
  case (Inr cps)
  from utf8_encode_decode[OF this] assms show ?thesis by blast
qed

section \<open>Facts about the float operations and the coordinate conversion\<close>

lemma fl_zero: "fl 0 = Fin 0"
  by (simp add: fl_def)

lemma fl_neg_numeral:
  "numeral w \<le> (2 ^ 53 :: int) \<Longrightarrow> fl (- numeral w) = Fin (- numeral w)"
  by (simp add: fl_minus fl_numeral)

lemma round_half_even_numeral: "round_half_even (numeral w) = numeral w"
  using round_half_even_of_int[of "numeral w"] by simp

lemma round_half_even_zero: "round_half_even 0 = 0"
  using round_half_even_of_int[of 0] by simp

lemma bindE_Inr: "bindE (Inr v) f = f v"
  by (simp add: bindE_def)

lemma bindE_Inl: "bindE (Inl e) f = Inl e"
  by (simp add: bindE_def)

lemma finite_or_overflow_Fin: "finite_or_overflow (Fin a) = Inr (Fin a)"
  by (simp add: finite_or_overflow_def)

lemmas float_simps = fl_zero round_half_even_numeral round_half_even_zero bindE_Inr bindE_Inl
  finite_or_overflow_Fin

lemma finite_or_overflow_fneg:
  "finite_or_overflow (fneg x) = map_sum id fneg (finite_or_overflow x)"
  by (cases x) (simp_all add: float_simps finite_or_overflow_def)

lemma int_truediv_minus: "int_truediv (- a) 2 = map_sum id fneg (int_truediv a 2)"
  by (simp add: float_simps int_truediv_def fl_minus finite_or_overflow_fneg)

lemma fadd_commute: "fadd x y = fadd y x"
  by (cases x; cases y) (simp_all add: float_simps add.commute)

lemma fsub_alt: "fsub x y = fadd (fneg y) x"
  by (simp add: float_simps fsub_def fadd_commute)

lemma fadd_zero_right: "is_double x \<Longrightarrow> fadd x (Fin 0) = x"
  by (cases x) (simp_all add: float_simps)

lemma float_of_int_exact: "\<bar>n\<bar> \<le> 2 ^ 53 \<Longrightarrow> float_of_int n = Inr (Fin (of_int n))"
  by (simp add: float_simps float_of_int_def fl_of_int)

lemma int_truediv_2_exact: "\<bar>n\<bar> \<le> 2 ^ 53 \<Longrightarrow> int_truediv n 2 = Inr (Fin (of_int n / 2))"
  by (simp add: float_simps int_truediv_def fl_half_int)

lemma double_integer:
  assumes "fl a = Fin a" and "pow2 52 \<le> \<bar>a\<bar>"
  shows "\<exists>i. a = of_int i"
proof -
  have ax: "0 < \<bar>a\<bar>"
    using assms(2) pow2_pos[of 52] by linarith
  then have a0: "a \<noteq> 0" by simp
  define k where "k = ilog2 \<bar>a\<bar>"
  define e where "e = max (k - 52) (- 1074)"
  define m where "m = round_half_even (a / pow2 e)"
  have "\<bar>a\<bar> < pow2 (k + 1)"
    unfolding k_def using ax by (rule ilog2_bounds)
  with assms(2) have "pow2 52 < pow2 (k + 1)" by simp
  then have "0 \<le> e" by (simp add: float_simps pow2_less_iff e_def)
  then have p: "pow2 e = of_int (2 ^ nat e)" by (rule pow2_nat)
  from assms(1) a0 have "a = of_int m * pow2 e"
    by (auto simp: float_simps fl_def Let_def k_def[symmetric] e_def[symmetric] m_def[symmetric]
        split: if_splits)
  then have "a = of_int (m * 2 ^ nat e)"
    by (simp add: float_simps p)
  then show ?thesis ..
qed

lemma py_round_total:
  assumes "is_double x"
  shows "\<exists>y. py_round x 3 = Inr y"
proof (cases x)
  case (Fin a)
  show ?thesis
  proof (cases "pow2 52 \<le> \<bar>a\<bar>")
    case True
    from assms Fin have fa: "fl a = Fin a" by simp
    from double_integer[OF fa True] obtain i where i: "a = of_int i" ..
    have "round_half_even (a * 10 ^ 3) = i * 1000"
      using round_half_even_of_int[of "i * 1000"] by (simp add: float_simps i)
    then have "rat_of_int (round_half_even (a * 10 ^ 3)) / 10 ^ 3 = a"
      by (simp add: float_simps i)
    then show ?thesis
      by (simp add: float_simps py_round_def Fin fa)
  next
    case False
    define t where "t = a * 1000"
    have "\<bar>t\<bar> \<le> of_int \<lceil>\<bar>t\<bar>\<rceil>" by (rule le_of_int_ceiling)
    then have "\<bar>round_half_even t\<bar> \<le> \<lceil>\<bar>t\<bar>\<rceil>" by (rule round_half_even_bound)
    then have "\<bar>rat_of_int (round_half_even t)\<bar> \<le> of_int \<lceil>\<bar>t\<bar>\<rceil>"
      by (simp only: of_int_le_iff flip: of_int_abs)
    also have "\<dots> < \<bar>t\<bar> + 1" using ceiling_correct[of "\<bar>t\<bar>"] by linarith
    finally have "\<bar>rat_of_int (round_half_even t) / 1000\<bar> < \<bar>a\<bar> + 1"
      by (simp add: float_simps t_def abs_mult)
    also have "\<bar>a\<bar> + 1 < pow2 52 + 1" using False by simp
    also have "pow2 52 + 1 < pow2 1023" by (simp add: float_simps pow2_def)
    finally have "finite_or_overflow (fl (rat_of_int (round_half_even t) / 1000))
        = Inr (fl (rat_of_int (round_half_even t) / 1000))"
      by (rule fl_finite)
    then show ?thesis
      by (simp add: float_simps py_round_def Fin t_def)
  qed
qed (simp_all add: float_simps py_round_def)

lemma fl_lit_0_001: "fl (1 / 1000) = Fin (1152921504606847 / 1152921504606846976)"
  by (rule fl_eqI[where k="- 10" and e="- 62" and m="4611686018427388"]) (simp_all add: pow2_def)

lemma convertXY_PixToIM_center:
  assumes "is_double X0mm" "is_double Y0mm"
  shows "convertXY_PixToIM_default 1024 1024 (Fin p) X0mm Y0mm
         = bindE (py_round X0mm 3) (\<lambda>Xr. bindE (py_round Y0mm 3) (\<lambda>Yr. Inr (Xr, Yr)))"
  using assms
  by (simp add: float_simps convertXY_PixToIM_default_def convertXY_PixToIM_def int_truediv_def
      float_of_int_def fl_numeral fl_neg_numeral fsub_def ten_pow_neg_def
      fl_lit_0_001 fadd_zero_right)

lemma fl_cex_2: "fl (144115188075855875 / 140737488355328) = Fin 1024"
  by (rule fl_eqI[where k="10" and e="- 42" and m="4503599627370496"]) (simp_all add: pow2_def)

lemma fl_cex_3: "fl 18014398509481984 = Fin 18014398509481984"
  by (rule fl_eqI[where k="54" and e="2" and m="4503599627370496"]) (simp_all add: pow2_def)

lemma fl_cex_4: "fl 9007199254740989000 = Fin 9007199254740988928"
  by (rule fl_eqI[where k="62" and e="10" and m="8796093022207997"]) (simp_all add: pow2_def)

lemma fl_cex_5: "fl (10141204801825831964315344355459 / 1125899906842624) = Fin 9007199254740989"
  by (rule fl_eqI[where k="52" and e="0" and m="9007199254740989"]) (simp_all add: pow2_def)

lemma fl_cex_6: "fl 18014398509481981 = Fin 18014398509481980"
  by (rule fl_eqI[where k="53" and e="1" and m="9007199254740990"]) (simp_all add: pow2_def)

lemma fl_cex_7: "fl 9007199254740988000 = Fin 9007199254740987904"
  by (rule fl_eqI[where k="62" and e="10" and m="8796093022207996"]) (simp_all add: pow2_def)

lemma fl_cex_8: "fl (2535301200456457702848459937153 / 281474976710656) = Fin 9007199254740988"
  by (rule fl_eqI[where k="52" and e="0" and m="9007199254740988"]) (simp_all add: pow2_def)

lemma fl_wit_2: "fl (32281 / 1000) = Fin (4543146861598343 / 140737488355328)"
  by (rule fl_eqI[where k="5" and e="- 47" and m="4543146861598343"]) (simp_all add: pow2_def)

lemma fl_wit_3: "fl (10963 / 1000) = Fin (6171620339357843 / 562949953421312)"
  by (rule fl_eqI[where k="3" and e="- 49" and m="6171620339357843"]) (simp_all add: pow2_def)

lemma fl_wit_5: "fl (3462223278334361541 / 1152921504606846976) = Fin (211317338765525 / 70368744177664)"
  by (rule fl_eqI[where k="1" and e="- 51" and m="6762154840496800"]) (simp_all add: pow2_def)

lemma fl_wit_6: "fl (4120512184067293 / 140737488355328) = Fin (4120512184067293 / 140737488355328)"
  by (rule fl_eqI[where k="4" and e="- 48" and m="8241024368134586"]) (simp_all add: pow2_def)

lemma fl_wit_7: "fl (1543761894668568133 / 576460752303423488) = Fin (3015159950524547 / 1125899906842624)"
  by (rule fl_eqI[where k="1" and e="- 51" and m="6030319901049094"]) (simp_all add: pow2_def)

lemma fl_wit_8: "fl (15358400629240233 / 1125899906842624) = Fin (1919800078655029 / 140737488355328)"
  by (rule fl_eqI[where k="3" and e="- 49" and m="7679200314620116"]) (simp_all add: pow2_def)

lemma fl_wit_r9: "round_half_even (515064023008411625 / 17592186044416) = 29278"
  by (rule round_half_even_eqI) simp

lemma fl_wit_10: "fl (14639 / 500) = Fin (4120512184067293 / 140737488355328)"
  by (rule fl_eqI[where k="4" and e="- 48" and m="8241024368134586"]) (simp_all add: pow2_def)

lemma fl_wit_r11: "round_half_even (239975009831878625 / 17592186044416) = 13641"
  by (rule round_half_even_eqI) simp

lemma fl_wit_12: "fl (13641 / 1000) = Fin (7679200314620117 / 562949953421312)"
  by (rule fl_eqI[where k="3" and e="- 49" and m="7679200314620117"]) (simp_all add: pow2_def)

lemmas conversion_defs = convertXY_PixToIM_def pixelToStageCoordinate_def int_truediv_def
  float_of_int_def fsub_def ten_pow_neg_def py_round_def round_half_even_minus

lemma fl_ctr_r3: "round_half_even (567893357699792875 / 17592186044416) = 32281"
  by (rule round_half_even_eqI) simp

lemma fl_ctr_r4: "round_half_even (771452542419730375 / 70368744177664) = 10963"
  by (rule round_half_even_eqI) simp

text \<open>
  The rounding of \<^verbatim>\<open>round(x, 3)\<close> as a function of the float alone, and the image centre
  with a pixel size that is not finite.
\<close>

lemma round_half_even_error: "\<bar>x - of_int (round_half_even x)\<bar> \<le> 1 / 2"
proof -
  have "0 \<le> x - of_int \<lfloor>x\<rfloor>" "x - of_int \<lfloor>x\<rfloor> < 1"
    by linarith+
  then show ?thesis
    by (auto simp: round_half_even_def Let_def abs_le_iff)
qed

lemma py_round_value:
  assumes "is_double x"
  shows "py_round x 3 = Inr (round_3_decimals x)"
proof (cases x)
  case (Fin a)
  show ?thesis
  proof (cases "pow2 52 \<le> \<bar>a\<bar>")
    case True
    from assms Fin have fa: "fl a = Fin a" by simp
    from double_integer[OF fa True] obtain i where i: "a = of_int i" ..
    have "round_half_even (a * 10 ^ 3) = i * 1000"
      using round_half_even_of_int[of "i * 1000"] by (simp add: i)
    then have "rat_of_int (round_half_even (a * 1000)) / 1000 = a"
      by (simp add: i)
    then show ?thesis
      by (simp add: float_simps py_round_def round_3_decimals_def Fin fa)
  next
    case False
    define t where "t = a * 1000"
    have "\<bar>t\<bar> \<le> of_int \<lceil>\<bar>t\<bar>\<rceil>" by (rule le_of_int_ceiling)
    then have "\<bar>round_half_even t\<bar> \<le> \<lceil>\<bar>t\<bar>\<rceil>" by (rule round_half_even_bound)
    then have "\<bar>rat_of_int (round_half_even t)\<bar> \<le> of_int \<lceil>\<bar>t\<bar>\<rceil>"
      by (simp only: of_int_le_iff flip: of_int_abs)
    also have "\<dots> < \<bar>t\<bar> + 1" using ceiling_correct[of "\<bar>t\<bar>"] by linarith
    finally have "\<bar>rat_of_int (round_half_even t) / 1000\<bar> < \<bar>a\<bar> + 1"
      by (simp add: t_def abs_mult)
    also have "\<bar>a\<bar> + 1 < pow2 52 + 1" using False by simp
    also have "pow2 52 + 1 < pow2 1023" by (simp add: pow2_def)
    finally have "finite_or_overflow (fl (rat_of_int (round_half_even t) / 1000))
        = Inr (fl (rat_of_int (round_half_even t) / 1000))"
      by (rule fl_finite)
    then show ?thesis
      by (simp add: py_round_def round_3_decimals_def Fin t_def)
  qed
qed (simp_all add: py_round_def round_3_decimals_def)

lemma convertXY_PixToIM_center_nonfinite:
  assumes "P = PInf \<or> P = NInf \<or> P = NaN"
  shows "convertXY_PixToIM_default 1024 1024 P X0mm Y0mm = Inr (NaN, NaN)"
proof -
  have 1: "fmul (Fin 0) P = NaN"
    using assms by auto
  have 2: "fadd x NaN = NaN" for x
    by (cases x) simp_all
  show ?thesis
    by (simp add: float_simps convertXY_PixToIM_default_def convertXY_PixToIM_def
        int_truediv_def float_of_int_def fl_numeral fl_neg_numeral fsub_def 1 2 py_round_def)
qed

lemma fl_c5_1: "fl (3228149 / 100000) = Fin (4543215822967637 / 140737488355328)"
  by (rule fl_eqI[where k="5" and e="- 47" and m="4543215822967637"]) (simp_all add: pow2_def)

lemma fl_c5_2: "fl (27409 / 2500) = Fin (771494763666237 / 70368744177664)"
  by (rule fl_eqI[where k="3" and e="- 49" and m="6171958109329896"]) (simp_all add: pow2_def)

lemma fl_c5_r3: "round_half_even (567901977870954625 / 17592186044416) = 32281"
  by (rule round_half_even_eqI) simp

lemma fl_c5_4: "fl (32281 / 1000) = Fin (4543146861598343 / 140737488355328)"
  by (rule fl_eqI[where k="5" and e="- 47" and m="4543146861598343"]) (simp_all add: pow2_def)

lemma fl_c5_r5: "round_half_even (96436845458279625 / 8796093022208) = 10964"
  by (rule round_half_even_eqI) simp

lemma fl_c5_6: "fl (2741 / 250) = Fin (6172183289311265 / 562949953421312)"
  by (rule fl_eqI[where k="3" and e="- 49" and m="6172183289311265"]) (simp_all add: pow2_def)

section \<open>The example file names\<close>

text \<open>
  C1. Decoding the two example file names of the docstrings gives the documented field
  values. For the IM03 example: well \<^verbatim>\<open>A003\<close>, column 3, row 1, well index 3, subposition 1,
  loop iteration 1, Z slice 10, pixel size 1.625, light power 40, exposure 20,
  temperature 24.6, stage position (32.281, 10.963), Z position 21182.5 and time
  1375404533. For the IM04 example: well \<^verbatim>\<open>A001\<close>, column 1, row 1, well index 1,
  subposition 1, loop iteration 1, Z slice 1, pixel size 3.25, light power 80, exposure
  20, temperature 24.4, stage position (14.58, 11.262), Z position 20950.1 and time
  1374031802. A float value \<open>fl d\<close> is the float that the decimal literal \<open>d\<close> denotes.
\<close>

theorem example_filenames_decode:
  "IM03_getWellId example_IM03 = ''A003''
   \<and> IM03_getWellColumn example_IM03 = Inr 3
   \<and> IM03_getWellRow example_IM03 = Inr 1
   \<and> IM03_getWellIndex example_IM03 = Inr 3
   \<and> IM03_getWellSubPosition example_IM03 = Inr 1
   \<and> IM03_getLoopIteration example_IM03 = Inr 1
   \<and> IM03_getZSlice example_IM03 = Inr 10
   \<and> IM03_getPixelSize_um example_IM03 = Inr (fl 1.625)
   \<and> IM03_getLightPower example_IM03 = Inr 40
   \<and> IM03_getLightExposure example_IM03 = Inr 20
   \<and> IM03_getTemperature example_IM03 = Inr (fl 24.6)
   \<and> IM03_getXYPosition_mm example_IM03 = Inr (fl 32.281, fl 10.963)
   \<and> IM03_getZPosition_um example_IM03 = Inr (fl 21182.5)
   \<and> IM03_getTime example_IM03 = Inr 1375404533
   \<and> IM04_getWellId example_IM04 = ''A001''
   \<and> IM04_getWellColumn example_IM04 = Inr 1
   \<and> IM04_getWellRow example_IM04 = Inr 1
   \<and> IM04_getWellIndex example_IM04 = Inr 1
   \<and> IM04_getWellSubPosition example_IM04 = Inr 1
   \<and> IM04_getLoopIteration example_IM04 = Inr 1
   \<and> IM04_getZSlice example_IM04 = Inr 1
   \<and> IM04_getPixelSize_um example_IM04 = Inr (fl 3.25)
   \<and> IM04_getLightPower example_IM04 = Inr 80
   \<and> IM04_getLightExposure example_IM04 = Inr 20
   \<and> IM04_getTemperature example_IM04 = Inr (fl 24.4)
   \<and> IM04_getXYPosition_mm example_IM04 = Inr (fl 14.580, fl 11.262)
   \<and> IM04_getZPosition_um example_IM04 = Inr (fl 20950.1)
   \<and> IM04_getTime example_IM04 = Inr 1374031802"
  by (intro conjI) (rule example_fields)+

section \<open>Objective magnification and numerical aperture\<close>

text \<open>
  C2, at the input where the code fails. The pixel size decoded from the IM03 example
  file name is 1.625, a key of \<^verbatim>\<open>pixelSizeToMag\<close> with the magnification 4. Yet
  \<^verbatim>\<open>IM03.metadata.getObjectiveMagnification\<close> raises \<^verbatim>\<open>AttributeError\<close>: it calls
  \<^verbatim>\<open>IM03.getPixelSize_um\<close>, and the class \<^verbatim>\<open>IM03\<close> has no such attribute. The three sibling
  operations do what the claim says: on the example file names \<^verbatim>\<open>IM03.getObjectiveNA\<close>
  returns 0.13 and the IM04 operations return 2 and 0.06, and for the pixel size 4.0,
  which is no key, \<^verbatim>\<open>IM04.getObjectiveMagnification\<close> raises \<^verbatim>\<open>KeyError\<close>.
\<close>

theorem IM03_getObjectiveMagnification_example:
  "IM03_getPixelSize_um example_IM03 = Inr (fl 1.625)
   \<and> dict_get pixelSizeToMag (fl 1.625) = Inr 4
   \<and> IM03_getObjectiveMagnification example_IM03 = Inl AttributeError
   \<and> IM03_getObjectiveNA example_IM03 = Inr (fl 0.13)
   \<and> IM04_getObjectiveMagnification example_IM04 = Inr 2
   \<and> IM04_getObjectiveNA example_IM04 = Inr (fl 0.06)
   \<and> IM04_getObjectiveMagnification
       ''-A001--PO01--LO001--CO6--SL001--PX40000--PW0080--IN0020--TM244--X014580--Y011262--Z209501--T1374031802--WE00001.tif''
     = Inl KeyError"
  using objective_of_pixel_size[OF IM04_example_getPixelSize_um IM03_example_getPixelSize_um]
    objective_of_pixel_size(1)[OF IM04_unknown_pixel_size IM03_example_getPixelSize_um]
  by (simp add: IM03_example_getPixelSize_um dict_get_def pixelSizeToMag_keys
      pixelSizeToNA_keys_values fl_lit_3_25 fl_lit_1_625 fl_lit_0_65 fl_lit_0_325)

text \<open>
  C9. The keys of \<^verbatim>\<open>pixelSizeToMag\<close> and of \<^verbatim>\<open>pixelSizeToNA\<close> are the four distinct floats
  3.25, 1.625, 0.650 and 0.325, in this order. For every key, \<^verbatim>\<open>magToNA\<close> maps the
  magnification of the key to the numerical aperture of the key. \<^verbatim>\<open>magToNA\<close> maps 40 to
  0.6, but 40 is no value of \<^verbatim>\<open>pixelSizeToMag\<close>, and no file name makes
  \<^verbatim>\<open>getObjectiveMagnification\<close> return 40. The tables are constants: no function of the
  package assigns to them.
\<close>

theorem lookup_tables_consistent:
  "map fst pixelSizeToMag = [fl 3.25, fl 1.625, fl 0.650, fl 0.325]
   \<and> map fst pixelSizeToNA = [fl 3.25, fl 1.625, fl 0.650, fl 0.325]
   \<and> distinct [fl 3.25, fl 1.625, fl 0.650, fl 0.325]
   \<and> map (\<lambda>(p, m). (p, dict_get magToNA m)) pixelSizeToMag
       = map (\<lambda>(p, na). (p, Inr na)) pixelSizeToNA
   \<and> dict_get magToNA 40 = Inr (fl 0.6)
   \<and> 40 \<notin> snd ` set pixelSizeToMag
   \<and> (\<forall>imageName. IM03_getObjectiveMagnification imageName \<noteq> Inr 40
        \<and> IM04_getObjectiveMagnification imageName \<noteq> Inr 40)"
proof -
  have "distinct [fl 3.25, fl 1.625, fl 0.650, fl 0.325]"
    by (simp add: fl_lit_3_25 fl_lit_1_625 fl_lit_0_65 fl_lit_0_325)
  moreover have "map (\<lambda>(p, m). (p, dict_get magToNA m)) pixelSizeToMag
       = map (\<lambda>(p, na). (p, Inr na)) pixelSizeToNA"
    by (simp add: pixelSizeToMag_def pixelSizeToNA_def magToNA_def dict_get_def)
  moreover have "dict_get magToNA 40 = Inr (fl 0.6)"
    by (simp add: magToNA_def dict_get_def)
  moreover have "40 \<notin> snd ` set pixelSizeToMag"
    by (simp add: pixelSizeToMag_def)
  ultimately show ?thesis
    using getObjectiveMagnification_values
    by (simp add: pixelSizeToMag_def pixelSizeToNA_def)
qed

section \<open>Casts that fail\<close>

text \<open>
  C7. Every decoding operation that casts a slice of the file name with \<^verbatim>\<open>int\<close> or \<^verbatim>\<open>float\<close>
  raises \<^verbatim>\<open>ValueError\<close> whenever that cast fails: the only error a cast raises is
  \<^verbatim>\<open>ValueError\<close>, and the operation returns no value and no other error then. This holds
  for each cast of each operation of both variants (for \<^verbatim>\<open>getXYPosition_mm\<close>, for the cast
  of X and the cast of Y), and for the operations that derive from the pixel size. For
  \<^verbatim>\<open>getWellColumn\<close> in particular: a character at the column offsets that is no digit,
  white space, sign or underscore makes it raise \<^verbatim>\<open>ValueError\<close>.
\<close>

theorem cast_failure_propagates:
  "(py_int (py_slice imageName 18 20) = Inl e
      \<longrightarrow> e = ValueError \<and> IM03_getWellSubPosition imageName = Inl ValueError)
   \<and> (py_float (py_slice imageName 92 98) = Inl e
      \<longrightarrow> e = ValueError \<and> IM03_getZPosition_um imageName = Inl ValueError)
   \<and> (py_float (py_slice imageName 43 48) = Inl e
      \<longrightarrow> e = ValueError \<and> IM03_getPixelSize_um imageName = Inl ValueError)
   \<and> (py_float (py_slice imageName 43 48) = Inl e
      \<longrightarrow> e = ValueError \<and> IM03_getObjectiveNA imageName = Inl ValueError)
   \<and> (py_int (py_slice imageName 11 14) = Inl e
      \<longrightarrow> e = ValueError \<and> IM03_getWellColumn imageName = Inl ValueError)
   \<and> (py_int (py_slice imageName 2 7) = Inl e
      \<longrightarrow> e = ValueError \<and> IM03_getWellIndex imageName = Inl ValueError)
   \<and> (py_int (py_slice imageName 36 39) = Inl e
      \<longrightarrow> e = ValueError \<and> IM03_getZSlice imageName = Inl ValueError)
   \<and> (py_int (py_slice imageName 31 32) = Inl e
      \<longrightarrow> e = ValueError \<and> IM03_getChannelIndex imageName = Inl ValueError)
   \<and> (py_int (py_slice imageName 24 27) = Inl e
      \<longrightarrow> e = ValueError \<and> IM03_getLoopIteration imageName = Inl ValueError)
   \<and> (py_int (py_slice imageName (- 14) (- 4)) = Inl e
      \<longrightarrow> e = ValueError \<and> IM03_getTime imageName = Inl ValueError)
   \<and> (py_int (py_slice imageName 52 56) = Inl e
      \<longrightarrow> e = ValueError \<and> IM03_getLightPower imageName = Inl ValueError)
   \<and> (py_int (py_slice imageName 60 64) = Inl e
      \<longrightarrow> e = ValueError \<and> IM03_getLightExposure imageName = Inl ValueError)
   \<and> (py_float (py_slice imageName 68 71) = Inl e
      \<longrightarrow> e = ValueError \<and> IM03_getTemperature imageName = Inl ValueError)
   \<and> (py_int (py_slice imageName 74 80) = Inl e
      \<longrightarrow> e = ValueError \<and> IM03_getXYPosition_mm imageName = Inl ValueError)
   \<and> (py_int (py_slice imageName 83 89) = Inl e
      \<longrightarrow> e = ValueError \<and> IM03_getXYPosition_mm imageName = Inl ValueError)
   \<and> (py_int (py_slice imageName 9 11) = Inl e
      \<longrightarrow> e = ValueError \<and> IM04_getWellSubPosition imageName = Inl ValueError)
   \<and> (py_float (py_slice imageName 83 89) = Inl e
      \<longrightarrow> e = ValueError \<and> IM04_getZPosition_um imageName = Inl ValueError)
   \<and> (py_float (py_slice imageName 34 39) = Inl e
      \<longrightarrow> e = ValueError \<and> IM04_getPixelSize_um imageName = Inl ValueError)
   \<and> (py_float (py_slice imageName 34 39) = Inl e
      \<longrightarrow> e = ValueError \<and> IM04_getObjectiveMagnification imageName = Inl ValueError)
   \<and> (py_float (py_slice imageName 34 39) = Inl e
      \<longrightarrow> e = ValueError \<and> IM04_getObjectiveNA imageName = Inl ValueError)
   \<and> (py_int (py_slice imageName 2 5) = Inl e
      \<longrightarrow> e = ValueError \<and> IM04_getWellColumn imageName = Inl ValueError)
   \<and> (py_int (py_slice imageName 106 111) = Inl e
      \<longrightarrow> e = ValueError \<and> IM04_getWellIndex imageName = Inl ValueError)
   \<and> (py_int (py_slice imageName 27 30) = Inl e
      \<longrightarrow> e = ValueError \<and> IM04_getZSlice imageName = Inl ValueError)
   \<and> (py_int (py_slice imageName 22 23) = Inl e
      \<longrightarrow> e = ValueError \<and> IM04_getChannelIndex imageName = Inl ValueError)
   \<and> (py_int (py_slice imageName 15 18) = Inl e
      \<longrightarrow> e = ValueError \<and> IM04_getLoopIteration imageName = Inl ValueError)
   \<and> (py_int (py_slice imageName 92 102) = Inl e
      \<longrightarrow> e = ValueError \<and> IM04_getTime imageName = Inl ValueError)
   \<and> (py_int (py_slice imageName 43 47) = Inl e
      \<longrightarrow> e = ValueError \<and> IM04_getLightPower imageName = Inl ValueError)
   \<and> (py_int (py_slice imageName 51 55) = Inl e
      \<longrightarrow> e = ValueError \<and> IM04_getLightExposure imageName = Inl ValueError)
   \<and> (py_float (py_slice imageName 59 62) = Inl e
      \<longrightarrow> e = ValueError \<and> IM04_getTemperature imageName = Inl ValueError)
   \<and> (py_int (py_slice imageName 65 71) = Inl e
      \<longrightarrow> e = ValueError \<and> IM04_getXYPosition_mm imageName = Inl ValueError)
   \<and> (py_int (py_slice imageName 74 80) = Inl e
      \<longrightarrow> e = ValueError \<and> IM04_getXYPosition_mm imageName = Inl ValueError)
   \<and> (c \<in> set (py_slice imageName 11 14) \<and> \<not> is_digit c \<and> \<not> is_space c
        \<and> c \<noteq> CHR ''+'' \<and> c \<noteq> CHR ''-'' \<and> c \<noteq> CHR ''_''
      \<longrightarrow> IM03_getWellColumn imageName = Inl ValueError)
   \<and> (c \<in> set (py_slice imageName 2 5) \<and> \<not> is_digit c \<and> \<not> is_space c
        \<and> c \<noteq> CHR ''+'' \<and> c \<noteq> CHR ''-'' \<and> c \<noteq> CHR ''_''
      \<longrightarrow> IM04_getWellColumn imageName = Inl ValueError)"
proof -
  have i: "py_int s = Inl e \<Longrightarrow> e = ValueError \<and> py_int s = Inl ValueError" for s
    by (auto dest: py_int_error)
  have f: "py_float s = Inl e \<Longrightarrow> e = ValueError \<and> py_float s = Inl ValueError" for s
    by (auto dest: py_float_error)
  have xy3: "py_int (py_slice imageName 83 89) = Inl e \<Longrightarrow> IM03_getXYPosition_mm imageName = Inl ValueError"
    unfolding IM03_getXYPosition_mm_def by (rule getXYPosition_mm_second) simp_all
  have xy4: "py_int (py_slice imageName 74 80) = Inl e \<Longrightarrow> IM04_getXYPosition_mm imageName = Inl ValueError"
    unfolding IM04_getXYPosition_mm_def by (rule getXYPosition_mm_second) simp_all
  have x3: "py_int (py_slice imageName 74 80) = Inl e \<Longrightarrow> IM03_getXYPosition_mm imageName = Inl ValueError"
    by (auto simp: IM03_getXYPosition_mm_def bindE_def dest: i)
  have x4: "py_int (py_slice imageName 65 71) = Inl e \<Longrightarrow> IM04_getXYPosition_mm imageName = Inl ValueError"
    by (auto simp: IM04_getXYPosition_mm_def bindE_def dest: i)
  show ?thesis
    by (intro conjI impI)
      (auto simp: xy3 xy4 x3 x4 bindE_def
        IM03_getWellSubPosition_def IM03_getZPosition_um_def IM03_getPixelSize_um_def
        IM03_getObjectiveNA_def IM03_getWellColumn_def IM03_getWellIndex_def IM03_getZSlice_def
        IM03_getChannelIndex_def IM03_getLoopIteration_def IM03_getTime_def
        IM03_getLightPower_def IM03_getLightExposure_def IM03_getTemperature_def
        IM04_getWellSubPosition_def IM04_getZPosition_um_def IM04_getPixelSize_um_def
        IM04_getObjectiveMagnification_def IM04_getObjectiveNA_def IM04_getWellColumn_def
        IM04_getWellIndex_def IM04_getZSlice_def IM04_getChannelIndex_def
        IM04_getLoopIteration_def IM04_getTime_def IM04_getLightPower_def
        IM04_getLightExposure_def IM04_getTemperature_def
        dest: i f py_int_bad_character)
qed

theorem cast_failure_propagates_witness:
  "py_int (py_slice ''WE00003---A0x3--PO01--LO001--CO6--SL010--PX16250--PW0040--IN0020--TM246--X032281--Y010963--Z211825--T1375404533.tif'' 11 14) = Inl ValueError
   \<and> IM03_getWellColumn ''WE00003---A0x3--PO01--LO001--CO6--SL010--PX16250--PW0040--IN0020--TM246--X032281--Y010963--Z211825--T1375404533.tif'' = Inl ValueError"
proof -
  have "py_int (py_slice ''WE00003---A0x3--PO01--LO001--CO6--SL010--PX16250--PW0040--IN0020--TM246--X032281--Y010963--Z211825--T1375404533.tif'' 11 14) = Inl ValueError"
    by code_simp
  with cast_failure_propagates[of
      "''WE00003---A0x3--PO01--LO001--CO6--SL010--PX16250--PW0040--IN0020--TM246--X032281--Y010963--Z211825--T1375404533.tif''"
      ValueError]
  show ?thesis by blast
qed


section \<open>The coordinate conversion\<close>

text \<open>
  C4, as amended. For integer pixel coordinates and image dimensions with
  \<open>|Ypix| \<le> 2^52\<close> and \<open>|Image_Height| \<le> 2^52\<close>, and for every pixel size and stage centre,
  \<^verbatim>\<open>convertXY_PixToIM\<close> returns exactly what the documented formulas give in float
  arithmetic: \<^verbatim>\<open>round(X0mm + (Xpix - W/2) * PixelSize_um * 10^-3, 3)\<close> and
  \<^verbatim>\<open>round(Y0mm + (H - Ypix - H/2) * PixelSize_um * 10^-3, 3)\<close>, errors included. The X
  formula needs no bound. The code sums \<^verbatim>\<open>-H/2 + H - Ypix\<close> from the left; within the bound
  every intermediate sum is exact, so the order does not matter.
\<close>

theorem convertXY_PixToIM_formula:
  assumes "\<bar>Ypix\<bar> \<le> 2 ^ 52" and "\<bar>Image_Height\<bar> \<le> 2 ^ 52"
  shows "convertXY_PixToIM Xpix Ypix PixelSize_um X0mm Y0mm Image_Width Image_Height
         = pixelToStageCoordinate Xpix Ypix PixelSize_um X0mm Y0mm Image_Width Image_Height"
proof -
  let ?H = Image_Height
  have h: "\<bar>?H\<bar> \<le> 2 ^ 53" "\<bar>- ?H\<bar> \<le> 2 ^ 53" "\<bar>Ypix\<bar> \<le> 2 ^ 53" "\<bar>?H - Ypix\<bar> \<le> 2 ^ 53"
    using assms by simp_all
  have "rat_of_int (- ?H) / 2 + of_int ?H = of_int ?H / 2"
    by simp
  then have "fadd (Fin (of_int (- ?H) / 2)) (Fin (of_int ?H)) = Fin (of_int ?H / 2)"
    using fl_half_int[OF h(1)] by simp
  then have A: "fsub (fadd (Fin (of_int (- ?H) / 2)) (Fin (of_int ?H))) (Fin (of_int Ypix))
      = fl (of_int ?H / 2 - of_int Ypix)"
    by (simp add: float_simps fsub_def)
  have "rat_of_int (?H - Ypix) - of_int ?H / 2 = of_int ?H / 2 - of_int Ypix"
    by simp
  then have B: "fsub (Fin (of_int (?H - Ypix))) (Fin (of_int ?H / 2))
      = fl (of_int ?H / 2 - of_int Ypix)"
    by (simp add: float_simps fsub_def)
  note Y = int_truediv_2_exact[OF h(1)] int_truediv_2_exact[OF h(2)]
    float_of_int_exact[OF h(1)] float_of_int_exact[OF h(3)] float_of_int_exact[OF h(4)]
  have t: "ten_pow_neg 3 = fl 0.001"
    by (simp add: float_simps ten_pow_neg_def)
  show ?thesis
  proof (cases "int_truediv Image_Width 2")
    case (Inl e)
    then show ?thesis
      by (simp add: float_simps convertXY_PixToIM_def pixelToStageCoordinate_def int_truediv_minus)
  next
    case w: (Inr w2)
    show ?thesis
    proof (cases "float_of_int Xpix")
      case (Inl e)
      then show ?thesis
        by (simp add: float_simps convertXY_PixToIM_def pixelToStageCoordinate_def int_truediv_minus w)
    next
      case (Inr xp)
      have wm: "int_truediv (- Image_Width) 2 = Inr (fneg w2)"
        by (simp add: float_simps int_truediv_minus w)
      show ?thesis
        unfolding convertXY_PixToIM_def pixelToStageCoordinate_def
        by (simp only: wm w Inr bindE_Inr Y A B fsub_alt[of xp w2] t)
    qed
  qed
qed

theorem convertXY_PixToIM_formula_witness:
  "convertXY_PixToIM 100 200 (fl 3.25) (fl 32.281) (fl 10.963) 2048 2048
     = Inr (fl 29.278, fl 13.641)
   \<and> pixelToStageCoordinate 100 200 (fl 3.25) (fl 32.281) (fl 10.963) 2048 2048
     = Inr (fl 29.278, fl 13.641)"
proof -
  have "convertXY_PixToIM 100 200 (fl 3.25) (fl 32.281) (fl 10.963) 2048 2048
     = Inr (fl 29.278, fl 13.641)"
    by (simp add: float_simps conversion_defs fl_minus fl_numeral fl_lit_3_25 fl_lit_0_001 fl_wit_2 fl_wit_3 fl_wit_5 fl_wit_6 fl_wit_7 fl_wit_8 fl_wit_r9 fl_wit_10 fl_wit_r11 fl_wit_12)
  with convertXY_PixToIM_formula[of 200 2048 100 "fl 3.25" "fl 32.281" "fl 10.963" 2048]
  show ?thesis by simp
qed

text \<open>
  C4 as stated fails for an image height of \<open>2^54\<close>: the difference \<^verbatim>\<open>H - Ypix\<close> of the
  documented formula is rounded when it becomes a float, the sum \<^verbatim>\<open>-H/2 + H - Ypix\<close> of the
  code is not, and the two results differ by 1.
\<close>

theorem convertXY_PixToIM_formula_counterexample:
  "convertXY_PixToIM 0 3 (Fin 1000) (Fin 0) (Fin 0) 2048 (2 ^ 54)
     = Inr (Fin (- 1024), Fin 9007199254740989)
   \<and> pixelToStageCoordinate 0 3 (Fin 1000) (Fin 0) (Fin 0) 2048 (2 ^ 54)
     = Inr (Fin (- 1024), Fin 9007199254740988)"
  by (simp add: float_simps conversion_defs fl_minus fl_numeral fl_lit_0_001 fl_cex_2 fl_cex_3 fl_cex_4 fl_cex_5 fl_cex_6 fl_cex_7 fl_cex_8)

text \<open>
  C5, as amended. With the default image dimensions 2048 x 2048 and a finite pixel size
  \<open>Fin p\<close>, the image centre pixel (1024, 1024) maps to the stage centre rounded to 3
  decimals, for every stage centre: the call returns, never raises, and its result does
  not depend on \<open>p\<close>. The stage centre is any float (a value that satisfies \<open>is_double\<close>).
  Rounded to 3 decimals, \<open>round_3_decimals\<close>, is for a finite coordinate the float nearest to
  \<open>k / 1000\<close>, for an integer \<open>k\<close> within 1/2 of 1000 times the coordinate. With a pixel size
  that is infinite or NaN the call returns \<open>(nan, nan)\<close> whatever the stage centre.
\<close>

theorem convertXY_PixToIM_image_center:
  assumes "is_double X0mm" and "is_double Y0mm"
  shows "convertXY_PixToIM_default 1024 1024 (Fin p) X0mm Y0mm
           = Inr (round_3_decimals X0mm, round_3_decimals Y0mm)
       \<and> (X0mm = Fin a \<longrightarrow>
            (\<exists>k. round_3_decimals X0mm = fl (of_int k / 1000)
                 \<and> \<bar>a * 1000 - of_int k\<bar> \<le> 1 / 2))
       \<and> (Y0mm = Fin b \<longrightarrow>
            (\<exists>k. round_3_decimals Y0mm = fl (of_int k / 1000)
                 \<and> \<bar>b * 1000 - of_int k\<bar> \<le> 1 / 2))
       \<and> (P = PInf \<or> P = NInf \<or> P = NaN \<longrightarrow>
            convertXY_PixToIM_default 1024 1024 P X0mm Y0mm = Inr (NaN, NaN))"
proof -
  have r: "\<exists>k. round_3_decimals (Fin c) = fl (of_int k / 1000)
               \<and> \<bar>c * 1000 - of_int k\<bar> \<le> 1 / 2" for c
    using round_half_even_error[of "c * 1000"]
    by (intro exI[of _ "round_half_even (c * 1000)"]) (simp add: round_3_decimals_def)
  have c: "convertXY_PixToIM_default 1024 1024 (Fin p) X0mm Y0mm
             = Inr (round_3_decimals X0mm, round_3_decimals Y0mm)"
    using convertXY_PixToIM_center[OF assms, of p]
    by (simp add: py_round_value[OF assms(1)] py_round_value[OF assms(2)] bindE_Inr)
  show ?thesis
    using c r[of a] r[of b] convertXY_PixToIM_center_nonfinite[of P X0mm Y0mm]
    by blast
qed

theorem convertXY_PixToIM_image_center_witness:
  "convertXY_PixToIM_default 1024 1024 (fl 3.25) (fl 32.28149) (fl 10.9636)
     = Inr (fl 32.281, fl 10.964)"
proof -
  have "round_3_decimals (fl 32.28149) = fl 32.281" "round_3_decimals (fl 10.9636) = fl 10.964"
    by (simp_all add: float_simps round_3_decimals_def fl_c5_1 fl_c5_2 fl_c5_r3 fl_c5_4 fl_c5_r5 fl_c5_6)
  with convertXY_PixToIM_image_center[of "fl 32.28149" "fl 10.9636" "13 / 4"]
  show ?thesis by (simp add: fl_lit_3_25)
qed

text \<open>
  C5 as stated fails for the pixel size \<^verbatim>\<open>inf\<close>: the offset \<^verbatim>\<open>0.0 * inf\<close> is NaN, and the
  result is \<open>(nan, nan)\<close>, not the stage centre (32.281, 10.963), which is its own rounding
  to 3 decimals.
\<close>

theorem convertXY_PixToIM_image_center_counterexample:
  "convertXY_PixToIM_default 1024 1024 PInf (fl 32.281) (fl 10.963) = Inr (NaN, NaN)
   \<and> round_3_decimals (fl 32.281) = fl 32.281 \<and> fl 32.281 \<noteq> NaN
   \<and> round_3_decimals (fl 10.963) = fl 10.963 \<and> fl 10.963 \<noteq> NaN"
  by (simp add: float_simps convertXY_PixToIM_center_nonfinite round_3_decimals_def
      fl_wit_2 fl_wit_3 fl_ctr_r3 fl_ctr_r4)

section \<open>The channel index of the example file names\<close>

text \<open>
  C3, as amended. On each of the two example file names of the docstrings,
  \<^verbatim>\<open>getChannelIndex\<close> returns 6: the character at index 31 (IM03) and at index 22 (IM04)
  is the digit of \<^verbatim>\<open>CO6\<close>. The values 1, 3 and 5 of the docstring are a convention that
  no code enforces.
\<close>

theorem getChannelIndex_examples:
  "IM03_getChannelIndex example_IM03 = Inr 6 \<and> IM04_getChannelIndex example_IM04 = Inr 6"
  by code_simp

text \<open>
  C3 as stated fails: on the example file names the channel index is none of 1, 3, 5.
\<close>

theorem getChannelIndex_examples_counterexample:
  "IM03_getChannelIndex example_IM03 \<notin> {Inr 1, Inr 3, Inr 5}
   \<and> IM04_getChannelIndex example_IM04 \<notin> {Inr 1, Inr 3, Inr 5}"
  by code_simp

section \<open>The well row\<close>

text \<open>
  C6, as amended. When the character at the row offset (index 10 for IM03, index 1 for
  IM04) is an uppercase letter, \<^verbatim>\<open>getWellRow\<close> returns the 1-based position of that letter
  in the alphabet, which is its code point minus 64. The position lies between 1 and 26;
  it lies between 1 and 8 exactly for the letters A to H (code points up to 72).
\<close>

theorem getWellRow_alphabet_position:
  assumes "65 \<le> ord c" and "ord c \<le> 90"
    and "length pre3 = 10" and "length pre4 = 1"
  shows "IM03_getWellRow (pre3 @ c # post3) = Inr (ord c - 64)
       \<and> IM04_getWellRow (pre4 @ c # post4) = Inr (ord c - 64)
       \<and> 1 \<le> ord c - 64 \<and> ord c - 64 \<le> 26
       \<and> (ord c - 64 \<le> 8) = (ord c \<le> 72)"
proof -
  have "py_slice (pre3 @ c # post3) 10 11 = [c]"
    using py_slice_one[of pre3 c post3] assms(3) by simp
  moreover have "py_slice (pre4 @ c # post4) 1 2 = [c]"
    using py_slice_one[of pre4 c post4] assms(4) by simp
  ultimately show ?thesis
    using assms(1,2)
    by (simp add: IM03_getWellRow_def IM04_getWellRow_def index_uppercase)
qed

theorem getWellRow_alphabet_position_witness:
  "IM03_getWellRow example_IM03 = Inr 1 \<and> IM04_getWellRow example_IM04 = Inr 1"
  using getWellRow_alphabet_position[of "CHR ''A''" "''WE00003---''"
      "''-''" "''003--PO01--LO001--CO6--SL010--PX16250--PW0040--IN0020--TM246--X032281--Y010963--Z211825--T1375404533.tif''"
      "''001--PO01--LO001--CO6--SL001--PX32500--PW0080--IN0020--TM244--X014580--Y011262--Z209501--T1374031802--WE00001.tif''"]
  by (simp add: ord_def example_IM03_def example_IM04_def)

text \<open>
  C6 as stated fails: a 384-well plate has the rows A to P, and on a file name of row P
  \<^verbatim>\<open>getWellRow\<close> returns 16, outside the range 1 to 8.
\<close>

theorem getWellRow_range_counterexample:
  "IM03_getWellRow
     ''WE00003---P003--PO01--LO001--CO6--SL010--PX16250--PW0040--IN0020--TM246--X032281--Y010963--Z211825--T1375404533.tif''
     = Inr 16
   \<and> IM04_getWellRow
     ''-P001--PO01--LO001--CO6--SL001--PX32500--PW0080--IN0020--TM244--X014580--Y011262--Z209501--T1374031802--WE00001.tif''
     = Inr 16
   \<and> (16 :: int) \<notin> {1..8}"
  by code_simp

section \<open>The status client\<close>

text \<open>
  C8, as amended. When the response holds the separator byte \<open>0x1F\<close> and one more byte at
  its end, \<^verbatim>\<open>getVersion\<close> and \<^verbatim>\<open>getStatus\<close> return the UTF-8 decoding of exactly the bytes
  between the first separator and the final byte: nothing of what precedes the
  separator, and not the terminator. \<open>pre\<close> is what precedes the first separator, \<open>mid\<close> the
  bytes between, \<open>t\<close> the final byte. When the bytes between are the UTF-8 encoding of a
  text \<open>cps\<close>, both queries return that text; when they are the encoding of no text, both
  queries raise \<^verbatim>\<open>UnicodeDecodeError\<close>.
\<close>

theorem getVersion_getStatus_between:
  assumes "0x1F \<notin> set pre" and "incoming self = (pre @ 0x1F # mid @ [t]) # rest"
  shows "map_option fst (getVersion self) = Some (utf8_decode mid)
       \<and> map_option fst (getStatus self) = Some (utf8_decode mid)
       \<and> (list_all valid_code_point cps \<and> mid = utf8_encode cps \<longrightarrow>
            map_option fst (getVersion self) = Some (Inr cps)
            \<and> map_option fst (getStatus self) = Some (Inr cps))
       \<and> ((\<forall>cps. list_all valid_code_point cps \<longrightarrow> mid \<noteq> utf8_encode cps) \<longrightarrow>
            map_option fst (getVersion self) = Some (Inl UnicodeDecodeError)
            \<and> map_option fst (getStatus self) = Some (Inl UnicodeDecodeError))"
proof -
  have r: "map_option fst (getVersion self) = Some (utf8_decode mid)"
    "map_option fst (getStatus self) = Some (utf8_decode mid)"
    using assms by (simp_all add: getVersion_result getStatus_result extract_text_between)
  have v: "utf8_decode mid = Inr cps" if "list_all valid_code_point cps" "mid = utf8_encode cps"
    using that by (simp add: utf8_decode_encode)
  have e: "utf8_decode mid = Inl UnicodeDecodeError"
    if "\<forall>cps. list_all valid_code_point cps \<longrightarrow> mid \<noteq> utf8_encode cps"
    using that by (intro utf8_decode_invalid) blast
  show ?thesis
    using v e by (simp only: r) blast
qed

theorem getVersion_getStatus_between_witness:
  "utf8_encode [52, 46, 49, 181, 8364] = [0x34, 0x2E, 0x31, 0xC2, 0xB5, 0xE2, 0x82, 0xAC]
   \<and> map_option fst (getVersion (example_client\<lparr>incoming :=
        [[0x02] @ ascii ''IMVersion'' @ [0x1F]
         @ [0x34, 0x2E, 0x31, 0xC2, 0xB5, 0xE2, 0x82, 0xAC] @ [0x03]]\<rparr>))
       = Some (Inr [52, 46, 49, 181, 8364])
   \<and> map_option fst (getStatus (example_client\<lparr>incoming :=
        [[0x02] @ ascii ''IMVersion'' @ [0x1F]
         @ [0x34, 0x2E, 0x31, 0xC2, 0xB5, 0xE2, 0x82, 0xAC] @ [0x03]]\<rparr>))
       = Some (Inr [52, 46, 49, 181, 8364])"
  using getVersion_getStatus_between[of "[0x02] @ ascii ''IMVersion''"
      "example_client\<lparr>incoming :=
        [[0x02] @ ascii ''IMVersion'' @ [0x1F]
         @ [0x34, 0x2E, 0x31, 0xC2, 0xB5, 0xE2, 0x82, 0xAC] @ [0x03]]\<rparr>"
      "[0x34, 0x2E, 0x31, 0xC2, 0xB5, 0xE2, 0x82, 0xAC]" "0x03" "[]" "[52, 46, 49, 181, 8364]"]
  by (simp add: ascii_def utf8_encode_def utf8_encode_code_point_def valid_code_point_def)

text \<open>
  C8 as stated fails: the response \<^verbatim>\<open>b'\x1f\xff\x03'\<close> holds one separator and a final byte,
  the byte between them is not valid UTF-8, and both queries raise \<^verbatim>\<open>UnicodeDecodeError\<close>
  instead of returning text.
\<close>

theorem getVersion_getStatus_between_counterexample:
  "(0x1F :: byte) \<notin> set []
   \<and> map_option fst (getVersion (example_client\<lparr>incoming := [[0x1F, 0xFF, 0x03]]\<rparr>))
       = Some (Inl UnicodeDecodeError)
   \<and> map_option fst (getStatus (example_client\<lparr>incoming := [[0x1F, 0xFF, 0x03]]\<rparr>))
       = Some (Inl UnicodeDecodeError)"
  using extract_text_between[of "[]" "[0xFF]" "0x03"]
  by (simp add: getVersion_result getStatus_result)

text \<open>
  C10, as amended. When the response holds no separator byte, \<^verbatim>\<open>find\<close> returns \<open>-1\<close>, the
  slice starts at 0, and \<^verbatim>\<open>getVersion\<close> and \<^verbatim>\<open>getStatus\<close> return the decoding of the whole
  response without its final byte. The missing separator raises nothing; the decoding
  returns text when these bytes are valid UTF-8, as all ASCII bytes are, and raises
  \<^verbatim>\<open>UnicodeDecodeError\<close> when they are not.
\<close>

theorem getVersion_getStatus_no_separator:
  assumes "0x1F \<notin> set out" and "incoming self = out # rest"
  shows "map_option fst (getVersion self) = Some (utf8_decode (butlast out))
       \<and> map_option fst (getStatus self) = Some (utf8_decode (butlast out))
       \<and> (if list_all (\<lambda>b. b \<le> 0x7F) out
          then utf8_decode (butlast out) = Inr (map uint (butlast out)) else True)"
proof -
  have "list_all (\<lambda>b. b \<le> 0x7F) (butlast out)" if "list_all (\<lambda>b. b \<le> 0x7F) out"
    using that by (auto simp: list_all_iff dest: in_set_butlastD)
  then show ?thesis
    using assms
    by (simp add: getVersion_result getStatus_result extract_text_no_separator
        utf8_decode_ascii)
qed

theorem getVersion_getStatus_no_separator_witness:
  "map_option fst (getVersion (example_client\<lparr>incoming := [ascii ''Ready!'']\<rparr>))
     = Some (Inr [82, 101, 97, 100, 121])
   \<and> map_option fst (getStatus (example_client\<lparr>incoming := [ascii ''Ready!'']\<rparr>))
     = Some (Inr [82, 101, 97, 100, 121])"
  using getVersion_getStatus_no_separator[of "ascii ''Ready!''"
      "example_client\<lparr>incoming := [ascii ''Ready!'']\<rparr>" "[]"]
  by (simp add: example_client_def ascii_def cons_ok_def)

text \<open>
  C10 as stated fails: a response without separator whose bytes are not valid UTF-8
  makes both queries raise \<^verbatim>\<open>UnicodeDecodeError\<close>.
\<close>

theorem getVersion_no_separator_counterexample:
  "(0x1F :: byte) \<notin> set [0xFF, 0x03]
   \<and> map_option fst (getVersion (example_client\<lparr>incoming := [[0xFF, 0x03]]\<rparr>))
       = Some (Inl UnicodeDecodeError)
   \<and> map_option fst (getStatus (example_client\<lparr>incoming := [[0xFF, 0x03]]\<rparr>))
       = Some (Inl UnicodeDecodeError)"
  by (simp add: getVersion_result getStatus_result extract_text_no_separator)

end
